theory Spec2Isabelle
  imports Complex_Main "HOL-Library.Multiset"
begin

section \<open>Double-precision values\<close>

text \<open>
  The kernels of \<^verbatim>\<open>bounding_volume_hierarchy.pyx\<close> compute on \<^verbatim>\<open>np.float64_t\<close>.
  A double is modelled as a finite real, one of the two infinities, or NaN. Comparisons,
  \<^verbatim>\<open>fmin\<close>, \<^verbatim>\<open>fmax\<close> and \<^verbatim>\<open>fabs\<close> follow IEEE-754 and C99 on the special values (every
  comparison with NaN is false; \<^verbatim>\<open>fmin\<close> and \<^verbatim>\<open>fmax\<close> return the other argument when one
  is NaN).

  Sums, products and quotients of finite values are rounded as IEEE-754 binary64
  prescribes in the default mode: the exact result is rounded to the nearest value with a
  53-bit significand, ties to the even significand (\<open>rne\<close>); below \<^verbatim>\<open>2^-1022\<close> the
  spacing is the constant \<^verbatim>\<open>2^-1074\<close> of the subnormal numbers; a rounded magnitude of
  \<^verbatim>\<open>2^1024\<close> or more overflows to the infinity of the exact result's sign. Negation,
  \<^verbatim>\<open>fabs\<close>, \<^verbatim>\<open>fmin\<close>, \<^verbatim>\<open>fmax\<close> and the comparisons are exact. There is a single
  zero: the sign of a zero is not represented.
\<close>

datatype f64 = NaN | NInf | Fin real | PInf

text \<open>Rounding of a real to the nearest integer, ties to even.\<close>

definition rne :: "real \<Rightarrow> int" where
  "rne q =
     (let f = \<lfloor>q\<rfloor>; r = q - of_int f
      in if r < 1 / 2 then f else if 1 / 2 < r then f + 1 else if even f then f else f + 1)"

text \<open>
  The binary exponent of a non-zero real, not below the exponent of the smallest normal
  number, and the threshold of overflow.
\<close>

definition expo :: "real \<Rightarrow> int" where
  "expo x = max \<lfloor>log 2 \<bar>x\<bar>\<rfloor> (- 1022)"

definition OVERFLOW :: real where
  "OVERFLOW = 2 ^ 1024"

text \<open>The double that an exact result \<open>x\<close> is rounded to.\<close>

definition round64 :: "real \<Rightarrow> f64" where
  "round64 x =
     (if x = 0 then Fin 0
      else
        let u = 2 powi (expo x - 52); y = of_int (rne (x / u)) * u
        in if OVERFLOW \<le> \<bar>y\<bar> then (if 0 < x then PInf else NInf) else Fin y)"

fun fneg :: "f64 \<Rightarrow> f64" where
  "fneg NaN = NaN"
| "fneg NInf = PInf"
| "fneg PInf = NInf"
| "fneg (Fin a) = Fin (- a)"

fun fadd :: "f64 \<Rightarrow> f64 \<Rightarrow> f64" where
  "fadd (Fin a) (Fin b) = round64 (a + b)"
| "fadd NaN _ = NaN"
| "fadd _ NaN = NaN"
| "fadd PInf NInf = NaN"
| "fadd NInf PInf = NaN"
| "fadd PInf _ = PInf"
| "fadd _ PInf = PInf"
| "fadd NInf _ = NInf"
| "fadd _ NInf = NInf"

definition fsub :: "f64 \<Rightarrow> f64 \<Rightarrow> f64" where
  "fsub a b = fadd a (fneg b)"

fun scale_inf :: "f64 \<Rightarrow> real \<Rightarrow> f64" where
  "scale_inf i b = (if b = 0 then NaN else if 0 < b then i else fneg i)"

fun fmul :: "f64 \<Rightarrow> f64 \<Rightarrow> f64" where
  "fmul (Fin a) (Fin b) = round64 (a * b)"
| "fmul NaN _ = NaN"
| "fmul _ NaN = NaN"
| "fmul PInf (Fin b) = scale_inf PInf b"
| "fmul NInf (Fin b) = scale_inf NInf b"
| "fmul (Fin a) PInf = scale_inf PInf a"
| "fmul (Fin a) NInf = scale_inf NInf a"
| "fmul PInf PInf = PInf"
| "fmul NInf NInf = PInf"
| "fmul PInf NInf = NInf"
| "fmul NInf PInf = NInf"

fun fdiv :: "f64 \<Rightarrow> f64 \<Rightarrow> f64" where
  "fdiv (Fin a) (Fin b) =
     (if b = 0 then (if a = 0 then NaN else if 0 < a then PInf else NInf)
      else round64 (a / b))"
| "fdiv NaN _ = NaN"
| "fdiv _ NaN = NaN"
| "fdiv (Fin a) PInf = Fin 0"
| "fdiv (Fin a) NInf = Fin 0"
| "fdiv PInf (Fin b) = (if 0 \<le> b then PInf else NInf)"
| "fdiv NInf (Fin b) = (if 0 \<le> b then NInf else PInf)"
| "fdiv PInf PInf = NaN"
| "fdiv PInf NInf = NaN"
| "fdiv NInf PInf = NaN"
| "fdiv NInf NInf = NaN"

fun flt :: "f64 \<Rightarrow> f64 \<Rightarrow> bool" where
  "flt (Fin a) (Fin b) = (a < b)"
| "flt NaN _ = False"
| "flt _ NaN = False"
| "flt NInf NInf = False"
| "flt NInf _ = True"
| "flt PInf _ = False"
| "flt (Fin a) PInf = True"
| "flt (Fin a) NInf = False"

definition fle :: "f64 \<Rightarrow> f64 \<Rightarrow> bool" where
  "fle a b = (a \<noteq> NaN \<and> b \<noteq> NaN \<and> (a = b \<or> flt a b))"

definition fgt :: "f64 \<Rightarrow> f64 \<Rightarrow> bool" where
  "fgt a b = flt b a"

definition fge :: "f64 \<Rightarrow> f64 \<Rightarrow> bool" where
  "fge a b = fle b a"

definition fmin :: "f64 \<Rightarrow> f64 \<Rightarrow> f64" where
  "fmin a b = (if a = NaN then b else if b = NaN then a else if flt b a then b else a)"

definition fmax :: "f64 \<Rightarrow> f64 \<Rightarrow> f64" where
  "fmax a b = (if a = NaN then b else if b = NaN then a else if flt a b then b else a)"

fun fabs :: "f64 \<Rightarrow> f64" where
  "fabs NaN = NaN"
| "fabs NInf = PInf"
| "fabs PInf = PInf"
| "fabs (Fin a) = Fin \<bar>a\<bar>"

section \<open>Geometric primitives\<close>

text \<open>
  Modelled from the spec: the structs \<open>BBox\<close>, \<open>Triangle\<close>, \<open>Ray\<close> and \<open>BVHNode\<close> and the
  attributes of the class \<open>BVH\<close> are declared in the module's \<^verbatim>\<open>.pxd\<close> file, which is not
  among the sources. Their fields are the ones the code reads and writes, as the data model
  of the specification lists them. The element id of a triangle is \<open>tri_elem_id\<close>, its box
  \<open>tri_bbox\<close>.

  A \<^verbatim>\<open>np.float64_t[3]\<close> array is a triple; \<open>idx\<close> reads component \<open>i\<close> for \<open>i\<close> in 0, 1, 2.
\<close>

type_synonym vec3 = "f64 \<times> f64 \<times> f64"

fun idx :: "vec3 \<Rightarrow> nat \<Rightarrow> f64" where
  "idx (x, y, z) i = (if i = 0 then x else if i = 1 then y else z)"

record BBox =
  left_edge :: vec3
  right_edge :: vec3

record Triangle =
  p0 :: vec3
  p1 :: vec3
  p2 :: vec3
  tri_elem_id :: int
  centroid :: vec3
  tri_bbox :: BBox

record Ray =
  origin :: vec3
  direction :: vec3
  inv_dir :: vec3
  data_val :: f64
  t_near :: f64
  t_far :: f64
  elem_id :: int
  near_boundary :: int

text \<open>
  Modelled from the spec: the helpers \<^verbatim>\<open>dot\<close>, \<^verbatim>\<open>subtract\<close> and \<^verbatim>\<open>cross\<close> of
  \<^verbatim>\<open>vec3_ops\<close>, which the module imports and which are not among the sources. They are
  the ingredients of the M\"oller--Trumbore intersection the specification names: the
  componentwise difference, the scalar product summed from left to right, and the vector
  product.
\<close>

fun dot :: "vec3 \<Rightarrow> vec3 \<Rightarrow> f64" where
  "dot (a0, a1, a2) (b0, b1, b2) = fadd (fadd (fmul a0 b0) (fmul a1 b1)) (fmul a2 b2)"

fun subtract :: "vec3 \<Rightarrow> vec3 \<Rightarrow> vec3" where
  "subtract (a0, a1, a2) (b0, b1, b2) = (fsub a0 b0, fsub a1 b1, fsub a2 b2)"

fun cross :: "vec3 \<Rightarrow> vec3 \<Rightarrow> vec3" where
  "cross (a0, a1, a2) (b0, b1, b2) =
     (fsub (fmul a1 b2) (fmul a2 b1),
      fsub (fmul a2 b0) (fmul a0 b2),
      fsub (fmul a0 b1) (fmul a1 b0))"

section \<open>Constants\<close>

text \<open>
  The literal \<^verbatim>\<open>1.0e-10\<close> denotes the double nearest to \<^verbatim>\<open>10^-10\<close>: the constant is
  \<^verbatim>\<open>7737125245533627 / 2^86\<close> (lemma \<open>DETERMINANT_EPS_value\<close> below).
\<close>

definition DETERMINANT_EPS :: f64 where
  "DETERMINANT_EPS = round64 (1 / 10 ^ 10)"

definition INF_f64 :: f64 where
  "INF_f64 = PInf"

definition LEAF_SIZE :: int where
  "LEAF_SIZE = 16"

section \<open>Intersection kernels\<close>

text \<open>
  \<^verbatim>\<open>ray_triangle_intersect\<close> (M\"oller--Trumbore). The ray is passed by pointer and
  updated in place on a hit; the model returns the flag together with the ray.
\<close>

definition ray_triangle_intersect :: "Ray \<Rightarrow> Triangle \<Rightarrow> bool \<times> Ray" where
  "ray_triangle_intersect ray tri =
     (let e1 = subtract (p1 tri) (p0 tri);
          e2 = subtract (p2 tri) (p0 tri);
          P = cross (direction ray) e2;
          det = dot e1 P
      in if fgt det (fneg DETERMINANT_EPS) \<and> flt det DETERMINANT_EPS then (False, ray)
         else
           let inv_det = fdiv (Fin 1) det;
               T = subtract (origin ray) (p0 tri);
               u = fmul (dot T P) inv_det
           in if flt u (Fin 0) \<or> fgt u (Fin 1) then (False, ray)
              else
                let Q = cross T e1;
                    v = fmul (dot (direction ray) Q) inv_det
                in if flt v (Fin 0) \<or> fgt (fadd u v) (Fin 1) then (False, ray)
                   else
                     let t = fmul (dot e2 Q) inv_det
                     in if fgt t DETERMINANT_EPS \<and> flt t (t_far ray)
                        then (True, ray\<lparr>t_far := t, elem_id := tri_elem_id tri\<rparr>)
                        else (False, ray))"

text \<open>The quantities the specification names: determinant, barycentric coordinates, distance.\<close>

definition mt_det :: "Ray \<Rightarrow> Triangle \<Rightarrow> f64" where
  "mt_det ray tri =
     dot (subtract (p1 tri) (p0 tri)) (cross (direction ray) (subtract (p2 tri) (p0 tri)))"

definition mt_u :: "Ray \<Rightarrow> Triangle \<Rightarrow> f64" where
  "mt_u ray tri =
     fmul (dot (subtract (origin ray) (p0 tri))
               (cross (direction ray) (subtract (p2 tri) (p0 tri))))
          (fdiv (Fin 1) (mt_det ray tri))"

definition mt_v :: "Ray \<Rightarrow> Triangle \<Rightarrow> f64" where
  "mt_v ray tri =
     fmul (dot (direction ray)
               (cross (subtract (origin ray) (p0 tri)) (subtract (p1 tri) (p0 tri))))
          (fdiv (Fin 1) (mt_det ray tri))"

definition mt_t :: "Ray \<Rightarrow> Triangle \<Rightarrow> f64" where
  "mt_t ray tri =
     fmul (dot (subtract (p2 tri) (p0 tri))
               (cross (subtract (origin ray) (p0 tri)) (subtract (p1 tri) (p0 tri))))
          (fdiv (Fin 1) (mt_det ray tri))"

text \<open>The hit condition in the specification's words.\<close>

definition spec_hit :: "Ray \<Rightarrow> Triangle \<Rightarrow> bool" where
  "spec_hit ray tri =
     (fge (fabs (mt_det ray tri)) DETERMINANT_EPS
      \<and> fle (Fin 0) (mt_u ray tri) \<and> fle (mt_u ray tri) (Fin 1)
      \<and> fle (Fin 0) (mt_v ray tri) \<and> fle (mt_v ray tri) (Fin 1)
      \<and> fle (fadd (mt_u ray tri) (mt_v ray tri)) (Fin 1)
      \<and> flt DETERMINANT_EPS (mt_t ray tri) \<and> flt (mt_t ray tri) (t_far ray))"

text \<open>
  \<^verbatim>\<open>ray_bbox_intersect\<close> (slab method). The loop over the three axes is a fold whose
  accumulator is the pair \<open>(tmin, tmax)\<close>.
\<close>

definition slab_step :: "Ray \<Rightarrow> BBox \<Rightarrow> f64 \<times> f64 \<Rightarrow> nat \<Rightarrow> f64 \<times> f64" where
  "slab_step ray bbox acc i =
     (let tmin = fst acc; tmax = snd acc;
          t1 = fmul (fsub (idx (left_edge bbox) i) (idx (origin ray) i)) (idx (inv_dir ray) i);
          t2 = fmul (fsub (idx (right_edge bbox) i) (idx (origin ray) i)) (idx (inv_dir ray) i)
      in (fmax tmin (fmin t1 t2), fmin tmax (fmax t1 t2)))"

definition slab_interval :: "Ray \<Rightarrow> BBox \<Rightarrow> f64 \<times> f64" where
  "slab_interval ray bbox = foldl (slab_step ray bbox) (fneg INF_f64, INF_f64) [0, 1, 2]"

definition ray_bbox_intersect :: "Ray \<Rightarrow> BBox \<Rightarrow> bool" where
  "ray_bbox_intersect ray bbox =
     (let tmin = fst (slab_interval ray bbox); tmax = snd (slab_interval ray bbox)
      in fge tmax (fmax tmin (Fin 0)))"

text \<open>
  The per-axis entry and exit distances in the specification's words, and membership of a
  parameter \<open>t\<close> in the interval of one axis. An axis whose distance is NaN (a zero
  direction component with the origin on the slab's plane) does not constrain \<open>t\<close>.
\<close>

definition axis_entry :: "Ray \<Rightarrow> BBox \<Rightarrow> nat \<Rightarrow> f64" where
  "axis_entry ray bbox i =
     fmin (fmul (fsub (idx (left_edge bbox) i) (idx (origin ray) i)) (idx (inv_dir ray) i))
          (fmul (fsub (idx (right_edge bbox) i) (idx (origin ray) i)) (idx (inv_dir ray) i))"

definition axis_exit :: "Ray \<Rightarrow> BBox \<Rightarrow> nat \<Rightarrow> f64" where
  "axis_exit ray bbox i =
     fmax (fmul (fsub (idx (left_edge bbox) i) (idx (origin ray) i)) (idx (inv_dir ray) i))
          (fmul (fsub (idx (right_edge bbox) i) (idx (origin ray) i)) (idx (inv_dir ray) i))"

definition in_axis_interval :: "Ray \<Rightarrow> BBox \<Rightarrow> nat \<Rightarrow> real \<Rightarrow> bool" where
  "in_axis_interval ray bbox i t =
     ((axis_entry ray bbox i = NaN \<or> fle (axis_entry ray bbox i) (Fin t))
      \<and> (axis_exit ray bbox i = NaN \<or> fle (Fin t) (axis_exit ray bbox i)))"

section \<open>The triangle array and its accesses\<close>

text \<open>
  The module is compiled with \<^verbatim>\<open>boundscheck(False)\<close> and \<^verbatim>\<open>wraparound(False)\<close>: an
  index outside the array is undefined behaviour. The model makes every such access the
  error \<open>OutOfBounds\<close>; following a child pointer that was never assigned is
  \<open>UninitializedChild\<close>, and calling the sampler when none was selected is \<open>NullSampler\<close>.
  \<open>UnsupportedTopology\<close> is the condition the specification names. Indices are
  \<^verbatim>\<open>np.int64_t\<close>; they are integers here, since every index the functions below use
  without error lies inside an allocated array.
\<close>

datatype error = UnsupportedTopology | OutOfBounds | UninitializedChild | NullSampler

definition in_range :: "'a list \<Rightarrow> int \<Rightarrow> bool" where
  "in_range xs i = (0 \<le> i \<and> i < int (length xs))"

definition get :: "'a list \<Rightarrow> int \<Rightarrow> error + 'a" where
  "get xs i = (if in_range xs i then Inr (xs ! nat i) else Inl OutOfBounds)"

definition bindE :: "error + 'a \<Rightarrow> ('a \<Rightarrow> error + 'b) \<Rightarrow> error + 'b" where
  "bindE m f = (case m of Inl err \<Rightarrow> Inl err | Inr x \<Rightarrow> f x)"

fun mapE :: "('a \<Rightarrow> error + 'b) \<Rightarrow> 'a list \<Rightarrow> error + 'b list" where
  "mapE f [] = Inr []"
| "mapE f (x # xs) = bindE (f x) (\<lambda>y. bindE (mapE f xs) (\<lambda>ys. Inr (y # ys)))"

fun foldE :: "('s \<Rightarrow> 'a \<Rightarrow> error + 's) \<Rightarrow> 's \<Rightarrow> 'a list \<Rightarrow> error + 's" where
  "foldE f st [] = Inr st"
| "foldE f st (x # xs) = bindE (f st x) (\<lambda>st'. foldE f st' xs)"

text \<open>\<^verbatim>\<open>range(n)\<close> as the list of its values.\<close>

definition range_list :: "int \<Rightarrow> int list" where
  "range_list n = map int [0..<nat n]"

section \<open>The BVH builder\<close>

text \<open>
  A node is a leaf when it was returned before its child pointers were assigned; both
  constructors carry \<^verbatim>\<open>begin\<close>, \<^verbatim>\<open>end\<close> and \<^verbatim>\<open>bbox\<close>.
\<close>

datatype BVHNode =
    Leaf (node_begin: int) (node_end: int) (node_bbox: BBox)
  | Inner (node_begin: int) (node_end: int) (node_bbox: BBox)
          (node_left: BVHNode) (node_right: BVHNode)

text \<open>
  \<^verbatim>\<open>BVH._partition\<close>: the \<^verbatim>\<open>while\<close> loop, with \<open>mid\<close> the running boundary and \<open>beg\<close>
  the running value of \<^verbatim>\<open>begin\<close>. The tuple assignment swaps the two array elements.
\<close>

function partition_loop ::
  "Triangle list \<Rightarrow> int \<Rightarrow> int \<Rightarrow> int \<Rightarrow> nat \<Rightarrow> f64 \<Rightarrow> error + (int \<times> Triangle list)" where
  "partition_loop tris mid beg en ax split =
     (if beg = en then Inr (mid, tris)
      else if \<not> in_range tris mid then Inl OutOfBounds
      else if fgt (idx (centroid (tris ! nat mid)) ax) split
        then partition_loop tris (mid + 1) (beg + 1) en ax split
      else if \<not> in_range tris beg then Inl OutOfBounds
      else if fgt (idx (centroid (tris ! nat beg)) ax) split
        then partition_loop (tris[nat mid := tris ! nat beg, nat beg := tris ! nat mid])
               (mid + 1) (beg + 1) en ax split
      else partition_loop tris mid (beg + 1) en ax split)"
  by pat_completeness auto
termination
  by (relation "measure (\<lambda>(tris, mid, beg, en, ax, split).
        nat (int (length tris) - mid) + nat (int (length tris) - beg))")
     (auto simp: in_range_def)

declare partition_loop.simps [simp del]

definition partition_bvh ::
  "Triangle list \<Rightarrow> int \<Rightarrow> int \<Rightarrow> nat \<Rightarrow> f64 \<Rightarrow> error + (int \<times> Triangle list)" where
  "partition_bvh tris beg en ax split = partition_loop tris beg beg en ax split"

text \<open>\<^verbatim>\<open>BVH._get_node_bbox\<close>: the box of triangle \<open>beg\<close>, grown over \<open>beg + 1 ..< en\<close>.\<close>

fun vmin :: "vec3 \<Rightarrow> vec3 \<Rightarrow> vec3" where
  "vmin (a0, a1, a2) (b0, b1, b2) = (fmin a0 b0, fmin a1 b1, fmin a2 b2)"

fun vmax :: "vec3 \<Rightarrow> vec3 \<Rightarrow> vec3" where
  "vmax (a0, a1, a2) (b0, b1, b2) = (fmax a0 b0, fmax a1 b1, fmax a2 b2)"

definition grow_bbox :: "BBox \<Rightarrow> BBox \<Rightarrow> BBox" where
  "grow_bbox box tb =
     \<lparr>left_edge = vmin (left_edge box) (left_edge tb),
      right_edge = vmax (right_edge box) (right_edge tb)\<rparr>"

function bbox_loop :: "Triangle list \<Rightarrow> BBox \<Rightarrow> int \<Rightarrow> int \<Rightarrow> error + BBox" where
  "bbox_loop tris box i en =
     (if i < en
      then (if in_range tris i
            then bbox_loop tris (grow_bbox box (tri_bbox (tris ! nat i))) (i + 1) en
            else Inl OutOfBounds)
      else Inr box)"
  by pat_completeness auto
termination
  by (relation "measure (\<lambda>(tris, box, i, en). nat (en - i))") auto

declare bbox_loop.simps [simp del]

definition get_node_bbox :: "Triangle list \<Rightarrow> int \<Rightarrow> int \<Rightarrow> error + BBox" where
  "get_node_bbox tris beg en =
     (if in_range tris beg
      then bbox_loop tris (tri_bbox (tris ! nat beg)) (beg + 1) en
      else Inl OutOfBounds)"

text \<open>The choice of the split axis in \<^verbatim>\<open>BVH._recursive_build\<close> (``compute longest dimension'').\<close>

definition split_axis :: "BBox \<Rightarrow> nat" where
  "split_axis box =
     (let ax0 = 0;
          d = fabs (fsub (idx (right_edge box) 0) (idx (left_edge box) 0));
          ax1 = (if fgt (fabs (fsub (idx (right_edge box) 1) (idx (left_edge box) 1))) d
                 then 1 else ax0);
          ax2 = (if fgt (fabs (fsub (idx (right_edge box) 2) (idx (left_edge box) 2))) d
                 then 2 else ax1)
      in ax2)"

text \<open>The boundary after the degenerate-partition test of \<^verbatim>\<open>BVH._recursive_build\<close>.\<close>

definition forced_mid :: "int \<Rightarrow> int \<Rightarrow> int \<Rightarrow> int" where
  "forced_mid beg en mid = (if mid = beg \<or> mid = en then beg + (en - beg) div 2 else mid)"

definition split_value :: "BBox \<Rightarrow> nat \<Rightarrow> f64" where
  "split_value box ax = fmul (Fin (1 / 2)) (fadd (idx (right_edge box) ax) (idx (left_edge box) ax))"

text \<open>
  Termination of the builder rests on the boundary that \<^verbatim>\<open>_partition\<close> returns lying in
  \<open>[beg, en]\<close>, and on the forced midpoint lying strictly inside a range of more than
  \<open>LEAF_SIZE\<close> triangles.
\<close>

lemma partition_loop_done:
  "beg = en \<Longrightarrow> partition_loop tris mid beg en ax split = Inr (mid, tris)"
  by (subst partition_loop.simps) simp

lemma partition_loop_oob_mid:
  "beg \<noteq> en \<Longrightarrow> \<not> in_range tris mid
   \<Longrightarrow> partition_loop tris mid beg en ax split = Inl OutOfBounds"
  by (subst partition_loop.simps) simp

lemma partition_loop_advance:
  "beg \<noteq> en \<Longrightarrow> in_range tris mid \<Longrightarrow> fgt (idx (centroid (tris ! nat mid)) ax) split
   \<Longrightarrow> partition_loop tris mid beg en ax split
       = partition_loop tris (mid + 1) (beg + 1) en ax split"
  by (subst partition_loop.simps) simp

lemma partition_loop_oob_beg:
  "beg \<noteq> en \<Longrightarrow> \<not> fgt (idx (centroid (tris ! nat mid)) ax) split \<Longrightarrow> \<not> in_range tris beg
   \<Longrightarrow> partition_loop tris mid beg en ax split = Inl OutOfBounds"
  by (subst partition_loop.simps) simp

lemma partition_loop_swap:
  "beg \<noteq> en \<Longrightarrow> in_range tris mid \<Longrightarrow> \<not> fgt (idx (centroid (tris ! nat mid)) ax) split
   \<Longrightarrow> in_range tris beg \<Longrightarrow> fgt (idx (centroid (tris ! nat beg)) ax) split
   \<Longrightarrow> partition_loop tris mid beg en ax split
       = partition_loop (tris[nat mid := tris ! nat beg, nat beg := tris ! nat mid])
           (mid + 1) (beg + 1) en ax split"
  by (subst partition_loop.simps) simp

lemma partition_loop_skip:
  "beg \<noteq> en \<Longrightarrow> in_range tris mid \<Longrightarrow> \<not> fgt (idx (centroid (tris ! nat mid)) ax) split
   \<Longrightarrow> in_range tris beg \<Longrightarrow> \<not> fgt (idx (centroid (tris ! nat beg)) ax) split
   \<Longrightarrow> partition_loop tris mid beg en ax split = partition_loop tris mid (beg + 1) en ax split"
  by (subst partition_loop.simps) simp

text \<open>
  The case analysis every property of the loop follows: the loop has ended, or it makes one
  of its three moves, or it reads outside the array.
\<close>

lemma partition_loop_result_cases:
  assumes "partition_loop tris mid beg en ax split = Inr (m, tris')"
  obtains (finished) "beg = en" "m = mid" "tris' = tris"
  | (advance) "beg \<noteq> en" "in_range tris mid" "fgt (idx (centroid (tris ! nat mid)) ax) split"
      "partition_loop tris (mid + 1) (beg + 1) en ax split = Inr (m, tris')"
  | (swap) "beg \<noteq> en" "in_range tris mid" "\<not> fgt (idx (centroid (tris ! nat mid)) ax) split"
      "in_range tris beg" "fgt (idx (centroid (tris ! nat beg)) ax) split"
      "partition_loop (tris[nat mid := tris ! nat beg, nat beg := tris ! nat mid])
         (mid + 1) (beg + 1) en ax split = Inr (m, tris')"
  | (skip) "beg \<noteq> en" "in_range tris mid" "\<not> fgt (idx (centroid (tris ! nat mid)) ax) split"
      "in_range tris beg" "\<not> fgt (idx (centroid (tris ! nat beg)) ax) split"
      "partition_loop tris mid (beg + 1) en ax split = Inr (m, tris')"
proof (cases "beg = en")
  case True
  with assms finished show ?thesis by (simp add: partition_loop_done)
next
  case ne: False
  show ?thesis
  proof (cases "in_range tris mid")
    case False
    with ne assms show ?thesis by (simp add: partition_loop_oob_mid)
  next
    case rm: True
    show ?thesis
    proof (cases "fgt (idx (centroid (tris ! nat mid)) ax) split")
      case True
      with ne rm assms advance show ?thesis by (simp add: partition_loop_advance)
    next
      case nm: False
      show ?thesis
      proof (cases "in_range tris beg")
        case False
        with ne nm assms show ?thesis by (simp add: partition_loop_oob_beg)
      next
        case rb: True
        show ?thesis
        proof (cases "fgt (idx (centroid (tris ! nat beg)) ax) split")
          case True
          with ne rm nm rb assms swap show ?thesis by (simp add: partition_loop_swap)
        next
          case False
          with ne rm nm rb assms skip show ?thesis by (simp add: partition_loop_skip)
        qed
      qed
    qed
  qed
qed

lemma partition_loop_mid:
  "partition_loop tris mid beg en ax split = Inr (m, tris') \<Longrightarrow> beg \<le> en
   \<Longrightarrow> mid \<le> m \<and> m - mid \<le> en - beg"
proof (induction tris mid beg en ax split arbitrary: m tris' rule: partition_loop.induct)
  case (1 tris mid beg en ax split)
  from "1.prems"(1) show ?case
  proof (cases rule: partition_loop_result_cases)
    case finished
    with "1.prems"(2) show ?thesis by simp
  next
    case advance
    from advance(1) "1.prems"(2) have "beg + 1 \<le> en" by simp
    from "1.IH"(1)[OF advance(1) _ advance(3) advance(4) this] advance(2) show ?thesis by simp
  next
    case swap
    from swap(1) "1.prems"(2) have "beg + 1 \<le> en" by simp
    from "1.IH"(2)[OF swap(1) _ swap(3) _ swap(5) swap(6) this] swap(2) swap(4)
    show ?thesis by simp
  next
    case skip
    from skip(1) "1.prems"(2) have "beg + 1 \<le> en" by simp
    from "1.IH"(3)[OF skip(1) _ skip(3) _ skip(5) skip(6) this] skip(2) skip(4)
    show ?thesis by simp
  qed
qed

lemma partition_bvh_mid:
  "partition_bvh tris beg en ax split = Inr (m, tris') \<Longrightarrow> beg \<le> en \<Longrightarrow> beg \<le> m \<and> m \<le> en"
  using partition_loop_mid[of tris beg beg en ax split m tris'] by (simp add: partition_bvh_def)

lemma forced_mid_strict:
  "LEAF_SIZE < en - beg \<Longrightarrow> beg \<le> m \<Longrightarrow> m \<le> en
   \<Longrightarrow> beg < forced_mid beg en m \<and> forced_mid beg en m < en"
  by (auto simp: forced_mid_def LEAF_SIZE_def)

text \<open>
  \<^verbatim>\<open>BVH._recursive_build\<close>. The triangle array is shared state: it is threaded through
  the partition and the two recursive calls and returned with the node. The division
  \<^verbatim>\<open>(end-begin)/2\<close> inside \<open>forced_mid\<close> is C's truncating one; it is only reached with
  \<open>en - beg > LEAF_SIZE\<close>, where it agrees with \<open>div\<close>.
\<close>

function recursive_build ::
  "Triangle list \<Rightarrow> int \<Rightarrow> int \<Rightarrow> error + (BVHNode \<times> Triangle list)" where
  "recursive_build tris beg en =
     (case get_node_bbox tris beg en of
        Inl err \<Rightarrow> Inl err
      | Inr box \<Rightarrow>
          if en - beg \<le> LEAF_SIZE then Inr (Leaf beg en box, tris)
          else
            let ax = split_axis box;
                split = split_value box ax
            in (case partition_bvh tris beg en ax split of
                  Inl err \<Rightarrow> Inl err
                | Inr (mid0, tris1) \<Rightarrow>
                   let mid = forced_mid beg en mid0
                   in (case recursive_build tris1 beg mid of
                         Inl err \<Rightarrow> Inl err
                       | Inr (l, tris2) \<Rightarrow>
                           (case recursive_build tris2 mid en of
                              Inl err \<Rightarrow> Inl err
                            | Inr (r, tris3) \<Rightarrow> Inr (Inner beg en box l r, tris3)))))"
  by pat_completeness auto
termination
proof (relation "measure (\<lambda>(tris, beg, en). nat (en - beg))")
  show "wf (measure (\<lambda>(tris, beg, en). nat (en - beg)))" by simp
next
  fix tris beg en box ax split x mid0 tris1 mid
  assume "\<not> en - beg \<le> LEAF_SIZE"
    and "partition_bvh tris beg en ax split = Inr x" and "(mid0, tris1) = x"
    and "mid = forced_mid beg en mid0"
  then show "((tris1, beg, mid), tris, beg, en) \<in> measure (\<lambda>(tris, beg, en). nat (en - beg))"
    using partition_bvh_mid[of tris beg en ax split mid0 tris1]
      forced_mid_strict[of en beg mid0]
    by (auto simp: LEAF_SIZE_def)
next
  fix tris beg en box ax split x mid0 tris1 mid y l tris2
  assume "\<not> en - beg \<le> LEAF_SIZE"
    and "partition_bvh tris beg en ax split = Inr x" and "(mid0, tris1) = x"
    and "mid = forced_mid beg en mid0"
  then show "((tris2, mid, en), tris, beg, en) \<in> measure (\<lambda>(tris, beg, en). nat (en - beg))"
    using partition_bvh_mid[of tris beg en ax split mid0 tris1]
      forced_mid_strict[of en beg mid0]
    by (auto simp: LEAF_SIZE_def)
qed

declare recursive_build.simps [simp del]


section \<open>Traversal\<close>

text \<open>The scan of a leaf's triangles in \<^verbatim>\<open>BVH._recursive_intersect\<close>.\<close>

function leaf_scan :: "Triangle list \<Rightarrow> Ray \<Rightarrow> int \<Rightarrow> int \<Rightarrow> error + Ray" where
  "leaf_scan tris ray i en =
     (if i < en
      then (if in_range tris i
            then leaf_scan tris (snd (ray_triangle_intersect ray (tris ! nat i))) (i + 1) en
            else Inl OutOfBounds)
      else Inr ray)"
  by pat_completeness auto
termination
  by (relation "measure (\<lambda>(tris, ray, i, en). nat (en - i))") auto

declare leaf_scan.simps [simp del]

text \<open>
  \<^verbatim>\<open>BVH._recursive_intersect\<close>. The code decides that a node is a leaf from its range, not
  from its pointers.
\<close>

fun recursive_intersect :: "Triangle list \<Rightarrow> Ray \<Rightarrow> BVHNode \<Rightarrow> error + Ray" where
  "recursive_intersect tris ray (Leaf b e box) =
     (if \<not> ray_bbox_intersect ray box then Inr ray
      else if e - b \<le> LEAF_SIZE then leaf_scan tris ray b e
      else Inl UninitializedChild)"
| "recursive_intersect tris ray (Inner b e box l r) =
     (if \<not> ray_bbox_intersect ray box then Inr ray
      else if e - b \<le> LEAF_SIZE then leaf_scan tris ray b e
      else (case recursive_intersect tris ray l of
              Inl err \<Rightarrow> Inl err
            | Inr ray1 \<Rightarrow> recursive_intersect tris ray1 r))"

section \<open>The BVH object\<close>

datatype ElementSampler = Q1Sampler | P1Sampler | W1Sampler

record BVH =
  num_elem :: int
  num_verts_per_elem :: int
  num_tri_per_elem :: int
  num_tri :: int
  vertices :: "f64 list"
  field_data :: "f64 list"
  triangles :: "Triangle list"
  root :: BVHNode
  sampler :: "ElementSampler option"

text \<open>
  The element sampler is an external collaborator: \<^verbatim>\<open>sample_at_real_point\<close> is a parameter
  of the model. Each invocation is recorded with its arguments, so that a run shows
  whether the sampler was called. A pointer into a buffer is the buffer's suffix.
\<close>

type_synonym sampler_fun = "ElementSampler \<Rightarrow> f64 list \<Rightarrow> f64 list \<Rightarrow> vec3 \<Rightarrow> f64"

type_synonym sampler_call = "ElementSampler \<times> f64 list \<times> f64 list \<times> vec3"

text \<open>\<^verbatim>\<open>BVH.intersect\<close>.\<close>

definition intersect :: "sampler_fun \<Rightarrow> BVH \<Rightarrow> Ray \<Rightarrow> error + (Ray \<times> sampler_call list)" where
  "intersect sample bvh ray =
     (case recursive_intersect (triangles bvh) ray (root bvh) of
        Inl err \<Rightarrow> Inl err
      | Inr ray1 \<Rightarrow>
          if elem_id ray1 < 0 then Inr (ray1, [])
          else
            let position =
                  (fadd (idx (origin ray1) 0) (fmul (t_far ray1) (idx (direction ray1) 0)),
                   fadd (idx (origin ray1) 1) (fmul (t_far ray1) (idx (direction ray1) 1)),
                   fadd (idx (origin ray1) 2) (fmul (t_far ray1) (idx (direction ray1) 2)));
                vertex_ptr = drop (nat (elem_id ray1 * num_verts_per_elem bvh * 3)) (vertices bvh);
                field_ptr = drop (nat (elem_id ray1 * num_verts_per_elem bvh)) (field_data bvh)
            in (case sampler bvh of
                  None \<Rightarrow> Inl NullSampler
                | Some s \<Rightarrow>
                    Inr (ray1\<lparr>data_val := sample s vertex_ptr field_ptr position,
                              near_boundary := - 1\<rparr>,
                         [(s, vertex_ptr, field_ptr, position)])))"

section \<open>The ray-casting driver\<close>

text \<open>
  \<^verbatim>\<open>cast_rays\<close>. The counters \<open>i\<close>, \<open>j\<close> and the ray count \<open>N\<close> are C \<^verbatim>\<open>int\<close>s: the
  index \<^verbatim>\<open>N*j + i\<close> into \<open>origins\<close> is computed in 32-bit two's complement arithmetic, in
  which a product or a sum outside the range of \<^verbatim>\<open>int\<close> wraps around.
\<close>

definition c_int :: "int \<Rightarrow> int" where
  "c_int x = (x + 2 ^ 31) mod 2 ^ 32 - 2 ^ 31"

definition origin_index :: "int \<Rightarrow> int \<Rightarrow> int \<Rightarrow> int" where
  "origin_index N j i = c_int (c_int (N * j) + i)"

text \<open>
  A worker owns one ray, whose memory comes from \<^verbatim>\<open>malloc\<close> (\<open>ray0\<close>, arbitrary); it
  copies the direction into it and computes the reciprocals.
\<close>

definition read_direction :: "f64 list \<Rightarrow> error + vec3" where
  "read_direction dir =
     bindE (get dir 0) (\<lambda>d0. bindE (get dir 1) (\<lambda>d1. bindE (get dir 2) (\<lambda>d2.
       Inr (d0, d1, d2))))"

definition worker_ray :: "Ray \<Rightarrow> vec3 \<Rightarrow> Ray" where
  "worker_ray ray0 d =
     ray0\<lparr>direction := d,
          inv_dir := (fdiv (Fin 1) (idx d 0), fdiv (Fin 1) (idx d 1), fdiv (Fin 1) (idx d 2))\<rparr>"

text \<open>
  The body of the \<^verbatim>\<open>prange\<close> loop up to the call of \<^verbatim>\<open>bvh.intersect\<close>: the origin of
  ray \<open>i\<close> is read, the fields that the traversal reads are reset, and the ray is traced.
\<close>

definition prepare_ray :: "Ray \<Rightarrow> vec3 \<Rightarrow> Ray" where
  "prepare_ray ray orig =
     ray\<lparr>origin := orig, t_far := INF_f64, t_near := Fin 0, data_val := Fin 0, elem_id := - 1\<rparr>"

definition trace_ray ::
  "sampler_fun \<Rightarrow> BVH \<Rightarrow> f64 list \<Rightarrow> int \<Rightarrow> Ray \<Rightarrow> int \<Rightarrow> error + (Ray \<times> sampler_call list)" where
  "trace_ray sample bvh origins N ray i =
     bindE (get origins (origin_index N 0 i)) (\<lambda>o0.
     bindE (get origins (origin_index N 1 i)) (\<lambda>o1.
     bindE (get origins (origin_index N 2 i)) (\<lambda>o2.
       intersect sample bvh (prepare_ray ray (o0, o1, o2)))))"

text \<open>
  One iteration: the traced ray's \<open>data_val\<close> is written to slot \<open>i\<close> of the image. The
  state is the image, the worker's ray and the sampler invocations so far. The iterations
  of the \<^verbatim>\<open>prange\<close> loop are run in index order on one worker.
\<close>

definition cast_step ::
  "sampler_fun \<Rightarrow> BVH \<Rightarrow> f64 list \<Rightarrow> int \<Rightarrow> f64 list \<times> Ray \<times> sampler_call list \<Rightarrow> int
    \<Rightarrow> error + (f64 list \<times> Ray \<times> sampler_call list)" where
  "cast_step sample bvh origins N st i =
     (case st of (img, ray, calls) \<Rightarrow>
        bindE (trace_ray sample bvh origins N ray i) (\<lambda>res.
          if in_range img i
          then Inr (img[nat i := data_val (fst res)], fst res, calls @ snd res)
          else Inl OutOfBounds))"

definition cast_rays ::
  "sampler_fun \<Rightarrow> f64 list \<Rightarrow> f64 list \<Rightarrow> f64 list \<Rightarrow> int \<Rightarrow> BVH \<Rightarrow> Ray
    \<Rightarrow> error + (f64 list \<times> sampler_call list)" where
  "cast_rays sample img origins dir N bvh ray0 =
     bindE (read_direction dir) (\<lambda>d.
     bindE (foldE (cast_step sample bvh origins N) (img, worker_ray ray0 d, []) (range_list N))
       (\<lambda>st. Inr (fst st, snd (snd st))))"

section \<open>Construction\<close>

text \<open>
  The triangulation tables and triangle counts come from \<^verbatim>\<open>mesh_construction.h\<close>; they
  are a parameter of the model.
\<close>

record elem_tables =
  HEX_NT :: int
  WEDGE_NT :: int
  TETRA_NT :: int
  triangulate_hex :: "int list list"
  triangulate_wedge :: "int list list"
  triangulate_tetra :: "int list list"

text \<open>
  The \<^verbatim>\<open>if\<close>/\<^verbatim>\<open>elif\<close> chain of \<^verbatim>\<open>BVH.__cinit__\<close>. It has no \<^verbatim>\<open>else\<close>: for any other
  vertex count the attributes keep what the allocation of the object gave them
  (\<^verbatim>\<open>num_tri_per_elem\<close> zero, no sampler), and the local table is never read.
\<close>

definition select_topology ::
  "elem_tables \<Rightarrow> int \<Rightarrow> int \<times> int list list \<times> ElementSampler option" where
  "select_topology tb nv =
     (if nv = 8 then (HEX_NT tb, triangulate_hex tb, Some Q1Sampler)
      else if nv = 6 then (WEDGE_NT tb, triangulate_wedge tb, Some W1Sampler)
      else if nv = 4 then (TETRA_NT tb, triangulate_tetra tb, Some P1Sampler)
      else (0, [], None))"

fun vcentroid :: "vec3 \<Rightarrow> vec3 \<Rightarrow> vec3 \<Rightarrow> vec3" where
  "vcentroid (a0, a1, a2) (b0, b1, b2) (c0, c1, c2) =
     (fdiv (fadd (fadd a0 b0) c0) (Fin 3),
      fdiv (fadd (fadd a1 b1) c1) (Fin 3),
      fdiv (fadd (fadd a2 b2) c2) (Fin 3))"

text \<open>
  One triangle of the array, as the innermost loop of \<^verbatim>\<open>BVH.__cinit__\<close> fills it from
  its three vertices: centroid and bounding box are computed componentwise.
\<close>

definition triangle_of :: "vec3 \<Rightarrow> vec3 \<Rightarrow> vec3 \<Rightarrow> int \<Rightarrow> Triangle" where
  "triangle_of q0 q1 q2 i =
     \<lparr>p0 = q0, p1 = q1, p2 = q2, tri_elem_id = i,
      centroid = vcentroid q0 q1 q2,
      tri_bbox = \<lparr>left_edge = vmin (vmin q0 q1) q2, right_edge = vmax (vmax q0 q1) q2\<rparr>\<rparr>"

definition make_triangle :: "vec3 list \<Rightarrow> int list \<Rightarrow> int list \<Rightarrow> int \<Rightarrow> error + Triangle" where
  "make_triangle verts row tri i =
     bindE (get tri 0) (\<lambda>a. bindE (get row a) (\<lambda>v0.
     bindE (get tri 1) (\<lambda>b. bindE (get row b) (\<lambda>v1.
     bindE (get tri 2) (\<lambda>c. bindE (get row c) (\<lambda>v2.
     bindE (get verts v0) (\<lambda>q0.
     bindE (get verts v1) (\<lambda>q1.
     bindE (get verts v2) (\<lambda>q2. Inr (triangle_of q0 q1 q2 i))))))))))"

text \<open>
  \<^verbatim>\<open>BVH.__cinit__\<close>: \<open>verts\<close> is the \<open>V \<times> 3\<close> vertex array, \<open>inds\<close> the connectivity
  with \<open>nv\<close> columns (\<^verbatim>\<open>indices.shape[1]\<close>), \<open>fdata\<close> the field values. The buffers are the
  flattened copies; the triangle array is filled element by element and handed to the
  builder.
\<close>

definition bvh_cinit ::
  "elem_tables \<Rightarrow> vec3 list \<Rightarrow> int list list \<Rightarrow> int \<Rightarrow> f64 list list \<Rightarrow> error + BVH" where
  "bvh_cinit tb verts inds nv fdata =
     (let ne = int (length inds);
          ntpe = fst (select_topology tb nv);
          tri_array = fst (snd (select_topology tb nv));
          smp = snd (snd (select_topology tb nv));
          ntri = ntpe * ne
      in
        bindE (mapE (\<lambda>i. mapE (\<lambda>j. bindE (get fdata i) (\<lambda>row. get row j)) (range_list nv))
                 (range_list ne)) (\<lambda>fd.
        bindE (mapE (\<lambda>i. mapE (\<lambda>j. bindE (get inds i) (\<lambda>row. bindE (get row j) (get verts)))
                            (range_list nv))
                 (range_list ne)) (\<lambda>vs.
        bindE (mapE (\<lambda>i. mapE (\<lambda>j. bindE (get inds i) (\<lambda>row.
                                   bindE (get tri_array j) (\<lambda>tri. make_triangle verts row tri i)))
                            (range_list ntpe))
                 (range_list ne)) (\<lambda>ts.
        bindE (recursive_build (concat ts) 0 ntri) (\<lambda>built.
          Inr \<lparr>num_elem = ne, num_verts_per_elem = nv, num_tri_per_elem = ntpe, num_tri = ntri,
               vertices = concat (map (\<lambda>v. [idx v 0, idx v 1, idx v 2]) (concat vs)),
               field_data = concat fd,
               triangles = snd built, root = fst built, sampler = smp\<rparr>)))))"

section \<open>Sample inputs\<close>

text \<open>
  Concrete inputs on which the theorems below are exercised. \<open>sample_tables\<close> is one
  instance of the tables parameter (4, 8 and 12 triangles per tetrahedron, wedge and
  hexahedron). The mesh is one unit tetrahedron; the array \<open>strip17\<close> is a strip of 17
  unit triangles along the x axis, one more than a leaf may hold.
\<close>

definition sample_tables :: elem_tables where
  "sample_tables =
     \<lparr>HEX_NT = 12, WEDGE_NT = 8, TETRA_NT = 4,
      triangulate_hex = [[0, 2, 1], [0, 3, 2], [4, 5, 6], [4, 6, 7], [0, 1, 5], [0, 5, 4],
                         [1, 2, 6], [1, 6, 5], [0, 7, 3], [0, 4, 7], [3, 6, 2], [3, 7, 6]],
      triangulate_wedge = [[3, 0, 1], [4, 3, 1], [2, 5, 4], [2, 4, 1], [0, 3, 2], [2, 3, 5],
                           [3, 4, 5], [0, 2, 1]],
      triangulate_tetra = [[0, 1, 3], [2, 3, 1], [0, 3, 2], [0, 2, 1]]\<rparr>"

definition tetra_verts :: "vec3 list" where
  "tetra_verts = [(Fin 0, Fin 0, Fin 0), (Fin 1, Fin 0, Fin 0), (Fin 0, Fin 1, Fin 0),
                  (Fin 0, Fin 0, Fin 1)]"

definition tetra_tris :: "Triangle list" where
  "tetra_tris =
     [triangle_of (Fin 0, Fin 0, Fin 0) (Fin 1, Fin 0, Fin 0) (Fin 0, Fin 0, Fin 1) 0,
      triangle_of (Fin 0, Fin 1, Fin 0) (Fin 0, Fin 0, Fin 1) (Fin 1, Fin 0, Fin 0) 0,
      triangle_of (Fin 0, Fin 0, Fin 0) (Fin 0, Fin 0, Fin 1) (Fin 0, Fin 1, Fin 0) 0,
      triangle_of (Fin 0, Fin 0, Fin 0) (Fin 0, Fin 1, Fin 0) (Fin 1, Fin 0, Fin 0) 0]"

definition unit_box :: BBox where
  "unit_box = \<lparr>left_edge = (Fin 0, Fin 0, Fin 0), right_edge = (Fin 1, Fin 1, Fin 1)\<rparr>"

definition tetra_bvh :: BVH where
  "tetra_bvh =
     \<lparr>num_elem = 1, num_verts_per_elem = 4, num_tri_per_elem = 4, num_tri = 4,
      vertices = [Fin 0, Fin 0, Fin 0, Fin 1, Fin 0, Fin 0, Fin 0, Fin 1, Fin 0,
                  Fin 0, Fin 0, Fin 1],
      field_data = [Fin 10, Fin 20, Fin 30, Fin 40],
      triangles = tetra_tris, root = Leaf 0 4 unit_box, sampler = Some P1Sampler\<rparr>"

definition pyramid_verts :: "vec3 list" where
  "pyramid_verts = tetra_verts @ [(Fin 1, Fin 1, Fin 0)]"

definition blank_ray :: Ray where
  "blank_ray = \<lparr>origin = (Fin 0, Fin 0, Fin 0), direction = (Fin 0, Fin 0, Fin 0),
                 inv_dir = (Fin 0, Fin 0, Fin 0), data_val = Fin 7, t_near = Fin 7,
                 t_far = Fin 7, elem_id = 7, near_boundary = 7\<rparr>"

definition upward_ray :: "real \<Rightarrow> real \<Rightarrow> Ray" where
  "upward_ray x y =
     \<lparr>origin = (Fin x, Fin y, Fin (- 1)), direction = (Fin 0, Fin 0, Fin 1),
      inv_dir = (PInf, PInf, Fin 1), data_val = Fin 0, t_near = Fin 0,
      t_far = PInf, elem_id = - 1, near_boundary = 7\<rparr>"

definition const_sampler :: sampler_fun where
  "const_sampler s vs fs pos = Fin 42"

definition strip_tri :: "int \<Rightarrow> Triangle" where
  "strip_tri k = triangle_of (Fin (of_int k), Fin 0, Fin 0) (Fin (of_int k + 1), Fin 0, Fin 0)
                   (Fin (of_int k), Fin 1, Fin 0) k"

definition strip17 :: "Triangle list" where
  "strip17 = map strip_tri [0, 1, 2, 3, 4, 5, 6, 7, 8, 9, 10, 11, 12, 13, 14, 15, 16]"

definition strip17_sorted :: "Triangle list" where
  "strip17_sorted = map strip_tri [9, 10, 11, 12, 13, 14, 15, 16, 8, 0, 1, 2, 3, 4, 5, 6, 7]"

definition strip17_tree :: BVHNode where
  "strip17_tree =
     Inner 0 17 \<lparr>left_edge = (Fin 0, Fin 0, Fin 0), right_edge = (Fin 17, Fin 1, Fin 0)\<rparr>
       (Leaf 0 8 \<lparr>left_edge = (Fin 9, Fin 0, Fin 0), right_edge = (Fin 17, Fin 1, Fin 0)\<rparr>)
       (Leaf 8 17 \<lparr>left_edge = (Fin 0, Fin 0, Fin 0), right_edge = (Fin 9, Fin 1, Fin 0)\<rparr>)"

definition box132 :: BBox where
  "box132 = \<lparr>left_edge = (Fin 0, Fin 0, Fin 0), right_edge = (Fin 1, Fin 3, Fin 2)\<rparr>"

text \<open>
  A triangle in the plane \<open>z = 0\<close> with one short and one long edge, and a ray that
  starts far from it and runs along the z axis: the products that make up the first
  barycentric coordinate overflow.
\<close>

definition huge_tri :: Triangle where
  "huge_tri = triangle_of (Fin 0, Fin 0, Fin 0) (Fin (1 / 2 ^ 600), Fin (3 / 2 ^ 600), Fin 0)
                (Fin (2 ^ 600), Fin (2 ^ 600), Fin 0) 0"

definition huge_ray :: Ray where
  "huge_ray =
     \<lparr>origin = (Fin (2 ^ 600), Fin (2 ^ 601), Fin (- 1)), direction = (Fin 0, Fin 0, Fin 1),
      inv_dir = (PInf, PInf, Fin 1), data_val = Fin 0, t_near = Fin 0,
      t_far = PInf, elem_id = - 1, near_boundary = 0\<rparr>"

text \<open>
  The origins of two rays for the driver, in the layout it reads (\<open>origins[N*j + i]\<close> is
  coordinate \<open>j\<close> of ray \<open>i\<close>): ray 0 starts below the tetrahedron, ray 1 beside it.
\<close>

definition two_origins :: "f64 list" where
  "two_origins = [Fin (1 / 4), Fin 5, Fin (1 / 4), Fin 5, Fin (- 1), Fin (- 1)]"

section \<open>Auxiliary predicates\<close>

text \<open>The nodes of a tree, and the shape every built tree has.\<close>

fun nodes :: "BVHNode \<Rightarrow> BVHNode list" where
  "nodes (Leaf b e box) = [Leaf b e box]"
| "nodes (Inner b e box l r) = Inner b e box l r # nodes l @ nodes r"

fun is_leaf :: "BVHNode \<Rightarrow> bool" where
  "is_leaf (Leaf b e box) = True"
| "is_leaf (Inner b e box l r) = False"

fun tree_ok :: "BVHNode \<Rightarrow> bool" where
  "tree_ok (Leaf b e box) = (e - b \<le> LEAF_SIZE)"
| "tree_ok (Inner b e box l r) =
     (LEAF_SIZE < e - b \<and> node_begin l = b \<and> node_end l = node_begin r \<and> node_end r = e
      \<and> b < node_end l \<and> node_end l < e \<and> tree_ok l \<and> tree_ok r)"

text \<open>What the claims say of one node.\<close>

fun ranges_partition :: "BVHNode \<Rightarrow> bool" where
  "ranges_partition (Leaf b e box) = True"
| "ranges_partition (Inner b e box l r) =
     (node_begin l = b \<and> node_end l = node_begin r \<and> node_end r = e
      \<and> b \<le> node_end l \<and> node_end l \<le> e)"

fun children_shrink :: "BVHNode \<Rightarrow> bool" where
  "children_shrink (Leaf b e box) = True"
| "children_shrink (Inner b e box l r) =
     (LEAF_SIZE < e - b
      \<and> node_begin l < node_end l \<and> node_begin r < node_end r
      \<and> node_end l - node_begin l < e - b \<and> node_end r - node_begin r < e - b)"

text \<open>The test of the partition loop on the triangle at index \<open>k\<close>.\<close>

definition gt_split :: "Triangle list \<Rightarrow> nat \<Rightarrow> f64 \<Rightarrow> int \<Rightarrow> bool" where
  "gt_split tris ax split k = fgt (idx (centroid (tris ! nat k)) ax) split"

text \<open>The extent of a box along an axis, as the builder measures it.\<close>

definition extent :: "BBox \<Rightarrow> nat \<Rightarrow> f64" where
  "extent box i = fabs (fsub (idx (right_edge box) i) (idx (left_edge box) i))"

text \<open>The tests of \<^verbatim>\<open>ray_triangle_intersect\<close> in the order the code makes them.\<close>

definition code_hit :: "Ray \<Rightarrow> Triangle \<Rightarrow> bool" where
  "code_hit ray tri =
     (\<not> (fgt (mt_det ray tri) (fneg DETERMINANT_EPS) \<and> flt (mt_det ray tri) DETERMINANT_EPS)
      \<and> \<not> (flt (mt_u ray tri) (Fin 0) \<or> fgt (mt_u ray tri) (Fin 1))
      \<and> \<not> (flt (mt_v ray tri) (Fin 0) \<or> fgt (fadd (mt_u ray tri) (mt_v ray tri)) (Fin 1))
      \<and> fgt (mt_t ray tri) DETERMINANT_EPS \<and> flt (mt_t ray tri) (t_far ray))"

text \<open>
  What the driver observes of ray \<open>i\<close>: the value it writes to the image and the sampler
  invocations of the ray.
\<close>

definition ray_value ::
  "sampler_fun \<Rightarrow> BVH \<Rightarrow> f64 list \<Rightarrow> int \<Rightarrow> Ray \<Rightarrow> int \<Rightarrow> error + (f64 \<times> sampler_call list)" where
  "ray_value sample bvh origins N ray i =
     (case trace_ray sample bvh origins N ray i of
        Inl err \<Rightarrow> Inl err
      | Inr res \<Rightarrow> Inr (data_val (fst res), snd res))"

definition ray_calls ::
  "sampler_fun \<Rightarrow> BVH \<Rightarrow> f64 list \<Rightarrow> int \<Rightarrow> Ray \<Rightarrow> int \<Rightarrow> sampler_call list" where
  "ray_calls sample bvh origins N ray i =
     (case trace_ray sample bvh origins N ray i of Inl err \<Rightarrow> [] | Inr res \<Rightarrow> snd res)"

section \<open>Properties of rounding\<close>

text \<open>
  Powers of two, the rounding to an integer, and the binary exponent.
\<close>

lemma p2_pos: "0 < (2::real) powi k"
  by simp

lemma p2_add: "(2::real) powi (a + b) = 2 powi a * 2 powi b"
  by (simp add: power_int_add)

lemma p2_diff: "(2::real) powi (a - b) = 2 powi a / 2 powi b"
  by (simp add: power_int_diff)

lemma p2_split: "(2::real) powi a = 2 powi b * 2 powi (a - b)"
  using p2_add[of b "a - b"] by simp

lemma p2_mono: "a \<le> b \<Longrightarrow> (2::real) powi a \<le> 2 powi b"
  by (simp add: power_int_increasing)

lemma p2_strict: "a < b \<Longrightarrow> (2::real) powi a < 2 powi b"
  by (simp add: power_int_strict_increasing)

lemma p2_less_imp: "(2::real) powi a < 2 powi b \<Longrightarrow> a < b"
  using p2_mono[of b a] by (cases "a < b") auto

lemma p2_nat: "0 \<le> k \<Longrightarrow> (2::real) powi k = 2 ^ nat k"
  by (simp add: power_int_def)

lemma rne_of_int: "rne (of_int n) = n"
  by (simp add: rne_def)

lemma rne_bounds: "\<lfloor>q\<rfloor> \<le> rne q \<and> rne q \<le> \<lceil>q\<rceil>"
proof (cases "q - of_int \<lfloor>q\<rfloor> < 1 / 2 \<or> (q - of_int \<lfloor>q\<rfloor> = 1 / 2 \<and> even \<lfloor>q\<rfloor>)")
  case True
  then have "rne q = \<lfloor>q\<rfloor>" by (auto simp: rne_def Let_def)
  then show ?thesis by (simp add: floor_le_ceiling)
next
  case False
  then have r: "rne q = \<lfloor>q\<rfloor> + 1" by (auto simp: rne_def Let_def)
  from False have "of_int \<lfloor>q\<rfloor> < q" by auto
  then have "\<lfloor>q\<rfloor> < \<lceil>q\<rceil>" by (simp add: less_ceiling_iff)
  with r show ?thesis by simp
qed

lemma floor_log2_bounds:
  assumes "x \<noteq> 0"
  shows "2 powi \<lfloor>log 2 \<bar>x\<bar>\<rfloor> \<le> \<bar>x\<bar> \<and> \<bar>x\<bar> < 2 powi (\<lfloor>log 2 \<bar>x\<bar>\<rfloor> + 1)"
proof -
  from assms have pos: "0 < \<bar>x\<bar>" by simp
  have "2 powr real_of_int \<lfloor>log 2 \<bar>x\<bar>\<rfloor> \<le> \<bar>x\<bar>
        \<and> \<bar>x\<bar> < 2 powr (real_of_int \<lfloor>log 2 \<bar>x\<bar>\<rfloor> + 1)"
    using floor_log_eq_powr_iff[OF pos, of 2 "\<lfloor>log 2 \<bar>x\<bar>\<rfloor>"] by simp
  moreover have "real_of_int \<lfloor>log 2 \<bar>x\<bar>\<rfloor> + 1 = real_of_int (\<lfloor>log 2 \<bar>x\<bar>\<rfloor> + 1)" by simp
  ultimately show ?thesis
    by (simp only: powr_real_of_int'[of 2, simplified])
qed

lemma floor_log2_eqI:
  assumes "2 powi k \<le> \<bar>x\<bar>" "\<bar>x\<bar> < 2 powi (k + 1)"
  shows "\<lfloor>log 2 \<bar>x\<bar>\<rfloor> = k"
proof -
  from assms(1) p2_pos[of k] have pos: "0 < \<bar>x\<bar>" by linarith
  have "2 powr real_of_int k \<le> \<bar>x\<bar> \<and> \<bar>x\<bar> < 2 powr (real_of_int k + 1)"
  proof -
    have "real_of_int k + 1 = real_of_int (k + 1)" by simp
    then show ?thesis using assms by (simp only: powr_real_of_int'[of 2, simplified])
  qed
  then show ?thesis using floor_log_eq_powr_iff[OF pos, of 2 k] by simp
qed

lemma OVERFLOW_powi: "OVERFLOW = 2 powi 1024"
  by (simp add: OVERFLOW_def)

lemma round64_unfold:
  assumes "x \<noteq> 0"
  shows "round64 x =
     (if OVERFLOW \<le> \<bar>real_of_int (rne (x / 2 powi (expo x - 52))) * 2 powi (expo x - 52)\<bar>
      then (if 0 < x then PInf else NInf)
      else Fin (real_of_int (rne (x / 2 powi (expo x - 52))) * 2 powi (expo x - 52)))"
  using assms by (simp add: round64_def Let_def)

lemma round64_not_nan: "round64 x \<noteq> NaN"
  by (simp add: round64_def Let_def)

text \<open>
  A real with a significand of at most 53 bits and an exponent in the range of the format
  is a double: rounding returns it. A real of magnitude \<^verbatim>\<open>2^1024\<close> or more overflows.
\<close>

lemma round64_exact:
  assumes x: "x = of_int n * 2 powi k" and n: "\<bar>n\<bar> < 2 ^ 53" and k: "- 1074 \<le> k" "k \<le> 971"
  shows "round64 x = Fin x"
proof (cases "x = 0")
  case True
  then show ?thesis by (simp add: round64_def)
next
  case False
  let ?f = "\<lfloor>log 2 \<bar>x\<bar>\<rfloor>"
  let ?e = "expo x"
  let ?u = "(2::real) powi (?e - 52)"
  have absx: "\<bar>x\<bar> = of_int \<bar>n\<bar> * 2 powi k"
    by (simp add: x abs_mult)
  from n have nr: "real_of_int \<bar>n\<bar> < 2 ^ 53"
    by (metis of_int_less_iff of_int_numeral of_int_power)
  have lt: "\<bar>x\<bar> < 2 powi (k + 53)"
  proof -
    have "\<bar>x\<bar> < 2 ^ 53 * 2 powi k"
      unfolding absx using nr p2_pos[of k] by (simp add: mult_strict_right_mono)
    also have "\<dots> = 2 powi (k + 53)"
      by (simp add: p2_add)
    finally show ?thesis .
  qed
  from floor_log2_bounds[OF False] lt have "2 powi ?f < (2::real) powi (k + 53)" by linarith
  then have "?f < k + 53" by (rule p2_less_imp)
  with k have ek: "?e \<le> k + 52" by (simp add: expo_def)
  define m where "m = nat (k + 52 - ?e)"
  define u :: real where "u = 2 powi (?e - 52)"
  have up: "0 < u" unfolding u_def by (rule p2_pos)
  have "2 powi k = (2::real) powi (?e - 52) * 2 powi (k - (?e - 52))"
    by (rule p2_split)
  also have "k - (?e - 52) = k + 52 - ?e" by simp
  also have "(2::real) powi (k + 52 - ?e) = 2 ^ m"
    using ek by (simp add: m_def p2_nat)
  finally have pk: "2 powi k = u * 2 ^ m" unfolding u_def .
  have xu: "x = of_int (n * 2 ^ m) * u"
    unfolding x pk by simp
  then have q: "x / u = of_int (n * 2 ^ m)"
    using up by simp
  have "of_int (rne (x / u)) * u = x"
    unfolding q rne_of_int using xu by simp
  then have y: "of_int (rne (x / ?u)) * ?u = x"
    unfolding u_def .
  have "\<bar>x\<bar> < OVERFLOW"
  proof -
    have "(2::real) powi (k + 53) \<le> 2 powi 1024" using k by (intro p2_mono) simp
    with lt show ?thesis unfolding OVERFLOW_powi by linarith
  qed
  with False y show ?thesis by (simp add: round64_unfold)
qed

lemma round64_overflow:
  assumes "OVERFLOW \<le> \<bar>x\<bar>"
  shows "round64 x = (if 0 < x then PInf else NInf)"
proof -
  have "0 < OVERFLOW" by (simp add: OVERFLOW_def)
  with assms have nz: "x \<noteq> 0" by auto
  let ?f = "\<lfloor>log 2 \<bar>x\<bar>\<rfloor>"
  let ?e = "expo x"
  let ?u = "(2::real) powi (?e - 52)"
  let ?q = "x / ?u"
  define c :: real where "c = 2 powi 52"
  define ci :: int where "ci = 2 ^ 52"
  have cci: "c = real_of_int ci" by (simp add: c_def ci_def)
  have up: "0 < ?u" by (rule p2_pos)
  from floor_log2_bounds[OF nz] assms have "(2::real) powi 1024 < 2 powi (?f + 1)"
    unfolding OVERFLOW_powi by linarith
  then have "1024 < ?f + 1" by (rule p2_less_imp)
  then have e: "?e = ?f" "1024 \<le> ?e" by (simp_all add: expo_def)
  have B: "2 powi ?e = c * ?u"
    unfolding c_def using p2_split[of ?e "?e - 52"] by (simp add: mult.commute)
  have "2 powi ?e \<le> \<bar>x\<bar>" using floor_log2_bounds[OF nz] e by simp
  with B have "c * ?u \<le> \<bar>x\<bar>" by simp
  then have "c \<le> \<bar>x\<bar> / ?u" using up by (simp add: pos_le_divide_eq)
  also have "\<bar>x\<bar> / ?u = \<bar>?q\<bar>" using up by (simp add: abs_divide)
  finally have absq: "c \<le> \<bar>?q\<bar>" .
  have "ci \<le> \<bar>rne ?q\<bar>"
  proof (cases "0 \<le> ?q")
    case True
    with absq have "real_of_int ci \<le> ?q" by (simp add: cci)
    then have "ci \<le> \<lfloor>?q\<rfloor>" by (simp only: le_floor_iff)
    with rne_bounds[of ?q] show ?thesis by linarith
  next
    case False
    with absq have "?q \<le> real_of_int (- ci)" by (simp add: cci)
    then have "\<lceil>?q\<rceil> \<le> - ci" by (simp only: ceiling_le_iff)
    with rne_bounds[of ?q] show ?thesis by linarith
  qed
  then have "c \<le> \<bar>real_of_int (rne ?q)\<bar>"
    unfolding cci by (metis of_int_abs of_int_le_iff)
  then have C: "c * ?u \<le> \<bar>real_of_int (rne ?q)\<bar> * ?u"
    using up by (simp add: mult_right_mono)
  have A: "(2::real) powi 1024 \<le> 2 powi ?e" using e by (intro p2_mono)
  have "\<bar>real_of_int (rne ?q) * ?u\<bar> = \<bar>real_of_int (rne ?q)\<bar> * ?u"
    using up by (simp add: abs_mult)
  with A B C have "OVERFLOW \<le> \<bar>real_of_int (rne ?q) * ?u\<bar>"
    unfolding OVERFLOW_powi by linarith
  with nz show ?thesis by (simp add: round64_unfold)
qed

lemma expo_eqI:
  assumes "2 powi e \<le> \<bar>x\<bar>" "\<bar>x\<bar> < 2 powi (e + 1)" "- 1022 \<le> e"
  shows "expo x = e"
  using floor_log2_eqI[OF assms(1,2)] assms(3) by (simp add: expo_def)

lemma round64_scaled_down:
  assumes "real_of_int \<lfloor>x * 2 ^ j\<rfloor> = x * 2 ^ j" "\<bar>x * 2 ^ j\<bar> < 2 ^ 53" "j \<le> 1074"
  shows "round64 x = Fin x"
proof (rule round64_exact[where n = "\<lfloor>x * 2 ^ j\<rfloor>" and k = "- int j"])
  have "real_of_int \<lfloor>x * 2 ^ j\<rfloor> * 2 powi (- int j) = (x * 2 ^ j) * 2 powi (- int j)"
    by (simp only: assms(1))
  also have "\<dots> = x" by (simp add: power_int_minus)
  finally show "x = real_of_int \<lfloor>x * 2 ^ j\<rfloor> * 2 powi (- int j)" by (rule sym)
  have "\<bar>real_of_int \<lfloor>x * 2 ^ j\<rfloor>\<bar> < real_of_int (2 ^ 53)"
    using assms(2) by (simp only: assms(1)) simp
  then show "\<bar>\<lfloor>x * 2 ^ j\<rfloor>\<bar> < 2 ^ 53"
    by (metis of_int_abs of_int_less_iff)
  show "- 1074 \<le> - int j" "- int j \<le> 971" using assms(3) by simp_all
qed

lemma round64_scaled_up:
  assumes "real_of_int \<lfloor>x / 2 ^ j\<rfloor> = x / 2 ^ j" "\<bar>x / 2 ^ j\<bar> < 2 ^ 53" "j \<le> 971"
  shows "round64 x = Fin x"
proof (rule round64_exact[where n = "\<lfloor>x / 2 ^ j\<rfloor>" and k = "int j"])
  have "real_of_int \<lfloor>x / 2 ^ j\<rfloor> * 2 powi int j = (x / 2 ^ j) * 2 powi int j"
    by (simp only: assms(1))
  also have "\<dots> = x" by simp
  finally show "x = real_of_int \<lfloor>x / 2 ^ j\<rfloor> * 2 powi int j" by (rule sym)
  have "\<bar>real_of_int \<lfloor>x / 2 ^ j\<rfloor>\<bar> < real_of_int (2 ^ 53)"
    using assms(2) by (simp only: assms(1)) simp
  then show "\<bar>\<lfloor>x / 2 ^ j\<rfloor>\<bar> < 2 ^ 53"
    by (metis of_int_abs of_int_less_iff)
  show "- 1074 \<le> int j" "int j \<le> 971" using assms(3) by simp_all
qed

lemma round64_gt_one:
  assumes r: "round64 s = Fin y" and y1: "1 < y"
  shows "1 + 1 / 2 ^ 52 \<le> y"
proof -
  from r y1 have nz: "s \<noteq> 0" by (auto simp: round64_def)
  define e where "e = expo s"
  define u :: real where "u = 2 powi (e - 52)"
  define N where "N = rne (s / u)"
  have up: "0 < u" unfolding u_def by (rule p2_pos)
  from r nz have y: "y = real_of_int N * u"
    unfolding N_def u_def e_def by (simp add: round64_unfold split: if_splits)
  have e0: "0 \<le> e"
  proof (rule ccontr)
    assume "\<not> 0 \<le> e"
    then have neg: "e + 1 \<le> 0" by simp
    have "\<lfloor>log 2 \<bar>s\<bar>\<rfloor> + 1 \<le> e + 1" unfolding e_def by (simp add: expo_def)
    then have "(2::real) powi (\<lfloor>log 2 \<bar>s\<bar>\<rfloor> + 1) \<le> 2 powi (e + 1)" by (rule p2_mono)
    with floor_log2_bounds[OF nz] have sl: "\<bar>s\<bar> < 2 powi (e + 1)" by linarith
    have sp: "(2::real) powi (e + 1) = u * 2 powi 53"
      unfolding u_def using p2_split[of "e + 1" "e - 52"] by simp
    have "s \<le> \<bar>s\<bar>" by simp
    with sl sp have "s < u * 2 powi 53" by linarith
    then have "s / u < 2 powi 53" using up by (simp add: pos_divide_less_eq mult.commute)
    then have "s / u \<le> real_of_int (2 ^ 53)" by simp
    then have "\<lceil>s / u\<rceil> \<le> 2 ^ 53" by (simp only: ceiling_le_iff)
    with rne_bounds[of "s / u"] have "N \<le> 2 ^ 53" unfolding N_def by linarith
    then have "real_of_int N \<le> real_of_int (2 ^ 53)" by (simp only: of_int_le_iff)
    then have "real_of_int N * u \<le> 2 powi 53 * u" using up by (simp add: mult_right_mono)
    also have "\<dots> = 2 powi (e + 1)" using sp by (simp add: mult.commute)
    also have "\<dots> \<le> 2 powi 0" using neg by (intro p2_mono)
    finally show False using y y1 by simp
  qed
  define c :: real where "c = 2 ^ 52"
  have cp: "0 < c" by (simp add: c_def)
  have "u = 2 ^ nat e / c"
    unfolding u_def c_def using e0 p2_diff[of e 52] by (simp add: p2_nat)
  with y have yM: "y = real_of_int (N * 2 ^ nat e) / c" by simp
  with y1 cp have "c < real_of_int (N * 2 ^ nat e)" by (simp add: pos_less_divide_eq)
  then have "real_of_int (2 ^ 52) < real_of_int (N * 2 ^ nat e)" by (simp add: c_def)
  then have "2 ^ 52 < N * 2 ^ nat e" by (simp only: of_int_less_iff)
  then have "2 ^ 52 + 1 \<le> N * 2 ^ nat e" by simp
  then have "real_of_int (2 ^ 52 + 1) \<le> real_of_int (N * 2 ^ nat e)" by (simp only: of_int_le_iff)
  then have "c + 1 \<le> real_of_int (N * 2 ^ nat e)" by (simp add: c_def)
  then have "(c + 1) / c \<le> y" unfolding yM using cp by (simp add: divide_right_mono)
  moreover have "(c + 1) / c = 1 + 1 / c" using cp by (simp add: field_simps)
  ultimately show ?thesis by (simp add: c_def)
qed

lemma round64_above_one:
  assumes "1 + 1 / 2 ^ 52 \<le> x"
  shows "round64 x = PInf \<or> (\<exists>y. round64 x = Fin y \<and> 1 < y)"
proof -
  define c :: real where "c = 2 ^ 52"
  have cp: "0 < c" by (simp add: c_def)
  from assms have x1: "1 + 1 / c \<le> x" by (simp add: c_def)
  with cp have xpos: "1 < x" by (smt (verit) divide_pos_pos)
  then have nz: "x \<noteq> 0" and ax: "\<bar>x\<bar> = x" by simp_all
  define e where "e = expo x"
  define u :: real where "u = 2 powi (e - 52)"
  define N where "N = rne (x / u)"
  have up: "0 < u" unfolding u_def by (rule p2_pos)
  have "(2::real) powi 0 < 2 powi (\<lfloor>log 2 \<bar>x\<bar>\<rfloor> + 1)"
    using floor_log2_bounds[OF nz] xpos ax by simp
  then have "0 < \<lfloor>log 2 \<bar>x\<bar>\<rfloor> + 1" by (rule p2_less_imp)
  then have ef: "e = \<lfloor>log 2 \<bar>x\<bar>\<rfloor>" and e0: "0 \<le> e" by (simp_all add: e_def expo_def)
  have lo: "2 powi e \<le> x" using floor_log2_bounds[OF nz] ef ax by simp
  have cu: "c * u = 2 powi e"
    unfolding c_def u_def using p2_split[of e "e - 52"] by (simp add: mult.commute)
  have big: "1 < real_of_int N * u"
  proof (cases "e = 0")
    case True
    with cu have u: "u = 1 / c" using cp by (simp add: field_simps)
    then have "x / u = x * c" by simp
    moreover have "c + 1 \<le> x * c" using x1 cp by (simp add: field_simps)
    ultimately have "real_of_int (2 ^ 52 + 1) \<le> x / u" by (simp add: c_def)
    then have "2 ^ 52 + 1 \<le> \<lfloor>x / u\<rfloor>" by (simp only: le_floor_iff)
    with rne_bounds[of "x / u"] have "2 ^ 52 + 1 \<le> N" unfolding N_def by linarith
    then have "real_of_int (2 ^ 52 + 1) \<le> real_of_int N" by (simp only: of_int_le_iff)
    then have "c + 1 \<le> real_of_int N" by (simp add: c_def)
    then have "(c + 1) * u \<le> real_of_int N * u" using up by (simp add: mult_right_mono)
    moreover have "(c + 1) * u = 1 + 1 / c" using u cp by (simp add: field_simps)
    ultimately show ?thesis using cp by (smt (verit) divide_pos_pos)
  next
    case False
    with e0 have e1: "1 \<le> e" by simp
    from lo cu have "c * u \<le> x" by simp
    then have "c \<le> x / u" using up by (simp add: pos_le_divide_eq)
    then have "real_of_int (2 ^ 52) \<le> x / u" by (simp add: c_def)
    then have "2 ^ 52 \<le> \<lfloor>x / u\<rfloor>" by (simp only: le_floor_iff)
    with rne_bounds[of "x / u"] have "2 ^ 52 \<le> N" unfolding N_def by linarith
    then have "real_of_int (2 ^ 52) \<le> real_of_int N" by (simp only: of_int_le_iff)
    then have "c \<le> real_of_int N" by (simp add: c_def)
    then have "c * u \<le> real_of_int N * u" using up by (simp add: mult_right_mono)
    moreover have "(2::real) powi 1 \<le> 2 powi e" using e1 by (intro p2_mono)
    ultimately show ?thesis using cu by simp
  qed
  show ?thesis
  proof (cases "OVERFLOW \<le> \<bar>real_of_int N * u\<bar>")
    case True
    with nz xpos show ?thesis
      unfolding N_def u_def e_def by (simp add: round64_unfold)
  next
    case False
    with nz have "round64 x = Fin (real_of_int N * u)"
      unfolding N_def u_def e_def by (simp add: round64_unfold)
    with big show ?thesis by blast
  qed
qed


lemma round64_normal:
  assumes "2 powi e \<le> \<bar>x\<bar>" "\<bar>x\<bar> < 2 powi (e + 1)" "- 1022 \<le> e"
  shows "round64 x =
     (if OVERFLOW \<le> \<bar>real_of_int (rne (x / 2 powi (e - 52))) * 2 powi (e - 52)\<bar>
      then (if 0 < x then PInf else NInf)
      else Fin (real_of_int (rne (x / 2 powi (e - 52))) * 2 powi (e - 52)))"
proof -
  have "x \<noteq> 0"
  proof
    assume "x = 0"
    with assms(1) have "(2::real) powi e \<le> 0" by simp
    with p2_pos[of e] show False by linarith
  qed
  from round64_unfold[OF this] show ?thesis
    unfolding expo_eqI[OF assms] .
qed

lemma round64_eps: "round64 (1 / 10 ^ 10) = Fin (7737125245533627 / 2 ^ 86)"
proof -
  have "round64 (1 / 10 ^ 10) =
     (if OVERFLOW \<le> \<bar>real_of_int (rne (1 / 10 ^ 10 / 2 powi (- 34 - 52))) * 2 powi (- 34 - 52)\<bar>
      then (if (0::real) < 1 / 10 ^ 10 then PInf else NInf)
      else Fin (real_of_int (rne (1 / 10 ^ 10 / 2 powi (- 34 - 52))) * 2 powi (- 34 - 52)))"
    by (rule round64_normal) simp_all
  moreover have "rne (1 / 10 ^ 10 / 2 powi (- 34 - 52)) = 7737125245533627"
    by (simp add: rne_def Let_def)
  ultimately show ?thesis by (simp add: OVERFLOW_def)
qed

text \<open>The value of the epsilon, and the forms in which exact results are recognised.\<close>

lemma DETERMINANT_EPS_value: "DETERMINANT_EPS = Fin (7737125245533627 / 2 ^ 86)"
  unfolding DETERMINANT_EPS_def by (rule round64_eps)

lemma round64_zero: "round64 0 = Fin 0"
  by (simp add: round64_def)

lemma round64_dyadic:
  "real_of_int \<lfloor>x * 2 ^ 20\<rfloor> = x * 2 ^ 20 \<Longrightarrow> \<bar>x * 2 ^ 20\<bar> < 2 ^ 53 \<Longrightarrow> round64 x = Fin x"
  by (rule round64_scaled_down[where j = 20]) simp_all

lemma round64_large:
  "real_of_int \<lfloor>x / 2 ^ 590\<rfloor> = x / 2 ^ 590 \<Longrightarrow> \<bar>x / 2 ^ 590\<bar> < 2 ^ 53 \<Longrightarrow> round64 x = Fin x"
  by (rule round64_scaled_up[where j = 590]) simp_all

lemma round64_small:
  "real_of_int \<lfloor>x * 2 ^ 610\<rfloor> = x * 2 ^ 610 \<Longrightarrow> \<bar>x * 2 ^ 610\<bar> < 2 ^ 53 \<Longrightarrow> round64 x = Fin x"
  by (rule round64_scaled_down[where j = 610]) simp_all


text \<open>
  Rounding of a real that is not a double: the exponent \<open>e\<close> and the rounded significand
  \<open>n\<close> determine the result. The centroids of the sample strip are of this kind.
\<close>

lemma round64_normalI:
  assumes "2 powi e \<le> \<bar>x\<bar>" "\<bar>x\<bar> < 2 powi (e + 1)" "- 1022 \<le> e"
    and "rne (x / 2 powi (e - 52)) = n"
    and "\<bar>real_of_int n * 2 powi (e - 52)\<bar> < OVERFLOW"
    and "y = real_of_int n * 2 powi (e - 52)"
  shows "round64 x = Fin y"
  using round64_normal[OF assms(1-3)] assms(4-6) by simp

lemma round64_1_3: "round64 (1 / 3) = Fin (6004799503160661 / 2 ^ 54)"
  by (rule round64_normalI[where e = "- 2" and n = 6004799503160661]) (simp_all add: rne_def Let_def OVERFLOW_def)

lemma round64_4_3: "round64 (4 / 3) = Fin (6004799503160661 / 2 ^ 52)"
  by (rule round64_normalI[where e = "0" and n = 6004799503160661]) (simp_all add: rne_def Let_def OVERFLOW_def)

lemma round64_7_3: "round64 (7 / 3) = Fin (5254199565265579 / 2 ^ 51)"
  by (rule round64_normalI[where e = "1" and n = 5254199565265579]) (simp_all add: rne_def Let_def OVERFLOW_def)

lemma round64_10_3: "round64 (10 / 3) = Fin (7505999378950827 / 2 ^ 51)"
  by (rule round64_normalI[where e = "1" and n = 7505999378950827]) (simp_all add: rne_def Let_def OVERFLOW_def)

lemma round64_13_3: "round64 (13 / 3) = Fin (4878899596318037 / 2 ^ 50)"
  by (rule round64_normalI[where e = "2" and n = 4878899596318037]) (simp_all add: rne_def Let_def OVERFLOW_def)

lemma round64_16_3: "round64 (16 / 3) = Fin (6004799503160661 / 2 ^ 50)"
  by (rule round64_normalI[where e = "2" and n = 6004799503160661]) (simp_all add: rne_def Let_def OVERFLOW_def)

lemma round64_19_3: "round64 (19 / 3) = Fin (7130699410003285 / 2 ^ 50)"
  by (rule round64_normalI[where e = "2" and n = 7130699410003285]) (simp_all add: rne_def Let_def OVERFLOW_def)

lemma round64_22_3: "round64 (22 / 3) = Fin (8256599316845909 / 2 ^ 50)"
  by (rule round64_normalI[where e = "2" and n = 8256599316845909]) (simp_all add: rne_def Let_def OVERFLOW_def)

lemma round64_25_3: "round64 (25 / 3) = Fin (4691249611844267 / 2 ^ 49)"
  by (rule round64_normalI[where e = "3" and n = 4691249611844267]) (simp_all add: rne_def Let_def OVERFLOW_def)

lemma round64_28_3: "round64 (28 / 3) = Fin (5254199565265579 / 2 ^ 49)"
  by (rule round64_normalI[where e = "3" and n = 5254199565265579]) (simp_all add: rne_def Let_def OVERFLOW_def)

lemma round64_31_3: "round64 (31 / 3) = Fin (5817149518686891 / 2 ^ 49)"
  by (rule round64_normalI[where e = "3" and n = 5817149518686891]) (simp_all add: rne_def Let_def OVERFLOW_def)

lemma round64_34_3: "round64 (34 / 3) = Fin (6380099472108203 / 2 ^ 49)"
  by (rule round64_normalI[where e = "3" and n = 6380099472108203]) (simp_all add: rne_def Let_def OVERFLOW_def)

lemma round64_37_3: "round64 (37 / 3) = Fin (6943049425529515 / 2 ^ 49)"
  by (rule round64_normalI[where e = "3" and n = 6943049425529515]) (simp_all add: rne_def Let_def OVERFLOW_def)

lemma round64_40_3: "round64 (40 / 3) = Fin (7505999378950827 / 2 ^ 49)"
  by (rule round64_normalI[where e = "3" and n = 7505999378950827]) (simp_all add: rne_def Let_def OVERFLOW_def)

lemma round64_43_3: "round64 (43 / 3) = Fin (8068949332372139 / 2 ^ 49)"
  by (rule round64_normalI[where e = "3" and n = 8068949332372139]) (simp_all add: rne_def Let_def OVERFLOW_def)

lemma round64_46_3: "round64 (46 / 3) = Fin (8631899285793451 / 2 ^ 49)"
  by (rule round64_normalI[where e = "3" and n = 8631899285793451]) (simp_all add: rne_def Let_def OVERFLOW_def)

lemma round64_49_3: "round64 (49 / 3) = Fin (4597424619607381 / 2 ^ 48)"
  by (rule round64_normalI[where e = "4" and n = 4597424619607381]) (simp_all add: rne_def Let_def OVERFLOW_def)

lemmas round64_thirds =
  round64_1_3 round64_4_3 round64_7_3 round64_10_3 round64_13_3 round64_16_3
  round64_19_3 round64_22_3 round64_25_3 round64_28_3 round64_31_3 round64_34_3
  round64_37_3 round64_40_3 round64_43_3 round64_46_3 round64_49_3

section \<open>Properties of the ray--triangle kernel\<close>

lemma rti_code_hit:
  "ray_triangle_intersect ray tri =
     (if code_hit ray tri
      then (True, ray\<lparr>t_far := mt_t ray tri, elem_id := tri_elem_id tri\<rparr>)
      else (False, ray))"
  by (simp add: ray_triangle_intersect_def code_hit_def Let_def mt_det_def mt_u_def mt_v_def mt_t_def)

text \<open>A NaN determinant makes the first barycentric coordinate NaN.\<close>

lemma fmul_nan_right: "fmul a NaN = NaN"
  by (cases a) simp_all

lemma fdiv_nan_right: "fdiv a NaN = NaN"
  by (cases a) simp_all

lemma mt_u_nan: "mt_det ray tri = NaN \<Longrightarrow> mt_u ray tri = NaN"
  by (simp add: mt_u_def fdiv_nan_right fmul_nan_right)

text \<open>
  A finite product is a rounded value, and no double lies strictly between 1 and
  \<^verbatim>\<open>1 + 2^-52\<close>: if \<open>v\<close> exceeds 1 and \<open>u\<close> is not negative, the rounded sum \<open>u + v\<close>
  exceeds 1 as well.
\<close>

lemma fmul_Fin_rounded: "fmul a b = Fin y \<Longrightarrow> \<exists>s. round64 s = Fin y"
  by (cases a; cases b) (auto split: if_splits)

lemma fadd_above_one:
  assumes "0 \<le> a" "1 + 1 / 2 ^ 52 \<le> y"
  shows "fgt (fadd (Fin a) (Fin y)) (Fin 1)"
proof -
  from assms have "1 + 1 / 2 ^ 52 \<le> a + y" by simp
  from round64_above_one[OF this] show ?thesis by (auto simp: fgt_def)
qed

lemma v_le_one:
  assumes v: "fmul p q = Fin b" and a: "0 \<le> a" and s: "\<not> fgt (fadd (Fin a) (Fin b)) (Fin 1)"
  shows "b \<le> 1"
proof (rule ccontr)
  assume "\<not> b \<le> 1"
  then have b1: "1 < b" by simp
  from fmul_Fin_rounded[OF v] obtain s0 where "round64 s0 = Fin b" by blast
  from round64_gt_one[OF this b1] have "1 + 1 / 2 ^ 52 \<le> b" .
  from fadd_above_one[OF a this] s show False by simp
qed

text \<open>The conditions of the specification pass every test of the code.\<close>

lemma tests_of_conditions:
  "fge (fabs d) (Fin e) \<Longrightarrow> fle (Fin 0) u \<Longrightarrow> fle u (Fin 1) \<Longrightarrow> fle (Fin 0) v \<Longrightarrow> fle s (Fin 1)
   \<Longrightarrow> \<not> (fgt d (fneg (Fin e)) \<and> flt d (Fin e)) \<and> \<not> (flt u (Fin 0) \<or> fgt u (Fin 1))
       \<and> \<not> (flt v (Fin 0) \<or> fgt s (Fin 1))"
  by (cases d; cases u; cases v; cases s) (auto simp: fle_def fge_def fgt_def)

lemma spec_hit_code_hit: "spec_hit ray tri \<Longrightarrow> code_hit ray tri"
  using tests_of_conditions[of "mt_det ray tri" "7737125245533627 / 2 ^ 86" "mt_u ray tri"
      "mt_v ray tri" "fadd (mt_u ray tri) (mt_v ray tri)"]
  by (simp add: spec_hit_def code_hit_def DETERMINANT_EPS_value fgt_def)

text \<open>
  The tests of the code give the conditions of the specification when neither
  barycentric coordinate is NaN.
\<close>

lemma fle_Fin: "fle (Fin a) (Fin b) = (a \<le> b)"
  by (auto simp: fle_def)

lemma det_of_test:
  "d \<noteq> NaN \<Longrightarrow> \<not> (fgt d (fneg (Fin e)) \<and> flt d (Fin e)) \<Longrightarrow> fge (fabs d) (Fin e)"
  by (cases d) (auto simp: fle_def fge_def fgt_def)

lemma u_of_test:
  "u \<noteq> NaN \<Longrightarrow> \<not> (flt u (Fin 0) \<or> fgt u (Fin 1)) \<Longrightarrow> \<exists>a. u = Fin a \<and> 0 \<le> a \<and> a \<le> 1"
  by (cases u) (auto simp: fgt_def)

lemma v_of_test:
  "v \<noteq> NaN \<Longrightarrow> \<not> (flt v (Fin 0) \<or> fgt (fadd (Fin a) v) (Fin 1)) \<Longrightarrow> \<exists>b. v = Fin b \<and> 0 \<le> b"
  by (cases v) (auto simp: fgt_def)

lemma sum_of_test: "\<not> fgt (fadd (Fin a) (Fin b)) (Fin 1) \<Longrightarrow> fle (fadd (Fin a) (Fin b)) (Fin 1)"
  using round64_not_nan[of "a + b"]
  by (cases "round64 (a + b)") (auto simp: fle_def fgt_def)

lemma code_hit_spec_hit:
  assumes u: "mt_u ray tri \<noteq> NaN" and v: "mt_v ray tri \<noteq> NaN" and c: "code_hit ray tri"
  shows "spec_hit ray tri"
proof -
  let ?eps = "7737125245533627 / 2 ^ 86 :: real"
  from c have t1: "\<not> (fgt (mt_det ray tri) (fneg (Fin ?eps)) \<and> flt (mt_det ray tri) (Fin ?eps))"
    and t2: "\<not> (flt (mt_u ray tri) (Fin 0) \<or> fgt (mt_u ray tri) (Fin 1))"
    and t3: "\<not> (flt (mt_v ray tri) (Fin 0) \<or> fgt (fadd (mt_u ray tri) (mt_v ray tri)) (Fin 1))"
    and t4: "flt (Fin ?eps) (mt_t ray tri)" "flt (mt_t ray tri) (t_far ray)"
    by (simp_all add: code_hit_def DETERMINANT_EPS_value fgt_def)
  from u mt_u_nan[of ray tri] have "mt_det ray tri \<noteq> NaN" by blast
  from det_of_test[OF this t1] have d: "fge (fabs (mt_det ray tri)) (Fin ?eps)" .
  from u_of_test[OF u t2] obtain a where a: "mt_u ray tri = Fin a" "0 \<le> a" "a \<le> 1" by blast
  from v_of_test[OF v, of a] t3 a(1) obtain b where b: "mt_v ray tri = Fin b" "0 \<le> b" by auto
  from t3 a(1) b(1) have s: "\<not> fgt (fadd (Fin a) (Fin b)) (Fin 1)" by simp
  from b(1) have "fmul (dot (direction ray)
               (cross (subtract (origin ray) (p0 tri)) (subtract (p1 tri) (p0 tri))))
          (fdiv (Fin 1) (mt_det ray tri)) = Fin b" by (simp add: mt_v_def)
  from v_le_one[OF this a(2) s] have b1: "b \<le> 1" .
  from sum_of_test[OF s] have "fle (fadd (Fin a) (Fin b)) (Fin 1)" .
  with d a b b1 t4 show ?thesis
    by (simp add: spec_hit_def DETERMINANT_EPS_value fle_Fin)
qed

text \<open>
  C1. The claim has \<^verbatim>\<open>ray_triangle_intersect\<close> report a hit exactly when the determinant's
  absolute value is at least the epsilon, \<open>0 \<le> u \<le> 1\<close>, \<open>0 \<le> v \<le> 1\<close>, \<open>u + v \<le> 1\<close> and
  \<open>t\<close> lies strictly between the epsilon and the ray's \<open>t_far\<close>. The code rejects when
  \<open>u < 0\<close> or \<open>u > 1\<close>, and a NaN passes both comparisons: for the triangle \<open>huge_tri\<close> and
  the ray \<open>huge_ray\<close> the two products in the scalar product for \<open>u\<close> overflow to
  infinities of opposite sign, \<open>u\<close> is NaN, and a hit at distance 1 is reported although
  \<open>u \<le> 1\<close> does not hold.
\<close>

theorem ray_triangle_intersect_nan_hit:
  "ray_triangle_intersect huge_ray huge_tri = (True, huge_ray\<lparr>t_far := Fin 1, elem_id := 0\<rparr>)
   \<and> mt_det huge_ray huge_tri = Fin 2
   \<and> mt_u huge_ray huge_tri = NaN
   \<and> mt_v huge_ray huge_tri = Fin (1 / 2)
   \<and> mt_t huge_ray huge_tri = Fin 1
   \<and> \<not> fle (mt_u huge_ray huge_tri) (Fin 1)
   \<and> \<not> spec_hit huge_ray huge_tri"
proof -
  have tri: "p0 huge_tri = (Fin 0, Fin 0, Fin 0)"
    "p1 huge_tri = (Fin (1 / 2 ^ 600), Fin (3 / 2 ^ 600), Fin 0)"
    "p2 huge_tri = (Fin (2 ^ 600), Fin (2 ^ 600), Fin 0)" "tri_elem_id huge_tri = 0"
    by (simp_all add: huge_tri_def triangle_of_def)
  have ray: "origin huge_ray = (Fin (2 ^ 600), Fin (2 ^ 601), Fin (- 1))"
    "direction huge_ray = (Fin 0, Fin 0, Fin 1)" "t_far huge_ray = PInf"
    by (simp_all add: huge_ray_def)
  have d: "mt_det huge_ray huge_tri = Fin 2"
    unfolding mt_det_def tri ray
    by (simp add: fsub_def round64_zero round64_dyadic round64_large round64_small)
  have i: "fdiv (Fin 1) (mt_det huge_ray huge_tri) = Fin (1 / 2)"
    by (simp add: d round64_dyadic)
  have u: "mt_u huge_ray huge_tri = NaN"
    unfolding mt_u_def i tri ray
    by (simp add: fsub_def round64_zero round64_dyadic round64_large round64_small
        round64_overflow OVERFLOW_def)
  have v: "mt_v huge_ray huge_tri = Fin (1 / 2)"
    unfolding mt_v_def i tri ray
    by (simp add: fsub_def round64_zero round64_dyadic round64_large round64_small)
  have t: "mt_t huge_ray huge_tri = Fin 1"
    unfolding mt_t_def i tri ray
    by (simp add: fsub_def round64_zero round64_dyadic round64_large round64_small)
  have c: "code_hit huge_ray huge_tri"
    by (simp add: code_hit_def d u v t ray DETERMINANT_EPS_value fgt_def)
  have s: "\<not> spec_hit huge_ray huge_tri"
    by (simp add: spec_hit_def u fle_def)
  from c d u v t s show ?thesis by (simp add: rti_code_hit tri fle_def)
qed

text \<open>
  C1, amended. \<^verbatim>\<open>ray_triangle_intersect\<close> reports a hit exactly when none of its
  rejection tests fires (the determinant is not strictly between minus the epsilon and
  the epsilon, neither \<open>u < 0\<close> nor \<open>u > 1\<close>, neither \<open>v < 0\<close> nor \<open>u + v > 1\<close>) and \<open>t\<close>
  lies strictly between the epsilon and the ray's \<open>t_far\<close>. The conditions of the claim
  always give a hit, and whenever \<open>u\<close> and \<open>v\<close> are not NaN a hit is reported exactly under
  the conditions of the claim. On a hit the ray's \<open>t_far\<close> becomes \<open>t\<close> and its \<open>elem_id\<close>
  the triangle's element id; on a miss the ray is returned unchanged.
\<close>

theorem ray_triangle_intersect_hit_tests:
  "ray_triangle_intersect ray tri =
     (if code_hit ray tri
      then (True, ray\<lparr>t_far := mt_t ray tri, elem_id := tri_elem_id tri\<rparr>)
      else (False, ray))
   \<and> (spec_hit ray tri \<longrightarrow> code_hit ray tri)
   \<and> (mt_u ray tri \<noteq> NaN \<and> mt_v ray tri \<noteq> NaN \<longrightarrow> code_hit ray tri = spec_hit ray tri)"
  using rti_code_hit[of ray tri] spec_hit_code_hit[of ray tri] code_hit_spec_hit[of ray tri]
  by blast

theorem ray_triangle_intersect_hit_tests_witness:
  "mt_u (upward_ray (1 / 4) (1 / 4))
     (triangle_of (Fin 0, Fin 0, Fin 0) (Fin 0, Fin 1, Fin 0) (Fin 1, Fin 0, Fin 0) 0) = Fin (1 / 4)
   \<and> mt_v (upward_ray (1 / 4) (1 / 4))
     (triangle_of (Fin 0, Fin 0, Fin 0) (Fin 0, Fin 1, Fin 0) (Fin 1, Fin 0, Fin 0) 0) = Fin (1 / 4)
   \<and> spec_hit (upward_ray (1 / 4) (1 / 4))
     (triangle_of (Fin 0, Fin 0, Fin 0) (Fin 0, Fin 1, Fin 0) (Fin 1, Fin 0, Fin 0) 0)
   \<and> code_hit (upward_ray (1 / 4) (1 / 4))
     (triangle_of (Fin 0, Fin 0, Fin 0) (Fin 0, Fin 1, Fin 0) (Fin 1, Fin 0, Fin 0) 0)
   \<and> ray_triangle_intersect (upward_ray (1 / 4) (1 / 4))
       (triangle_of (Fin 0, Fin 0, Fin 0) (Fin 0, Fin 1, Fin 0) (Fin 1, Fin 0, Fin 0) 0)
     = (True, (upward_ray (1 / 4) (1 / 4))\<lparr>t_far := Fin 1, elem_id := 0\<rparr>)
   \<and> mt_det (upward_ray (1 / 4) (1 / 4))
       (triangle_of (Fin 0, Fin 0, Fin 0) (Fin 1, Fin 0, Fin 0) (Fin 0, Fin 0, Fin 1) 0) = Fin 0
   \<and> ray_triangle_intersect (upward_ray (1 / 4) (1 / 4))
       (triangle_of (Fin 0, Fin 0, Fin 0) (Fin 1, Fin 0, Fin 0) (Fin 0, Fin 0, Fin 1) 0)
     = (False, upward_ray (1 / 4) (1 / 4))"
proof -
  let ?ray = "upward_ray (1 / 4) (1 / 4)"
  let ?floor = "triangle_of (Fin 0, Fin 0, Fin 0) (Fin 0, Fin 1, Fin 0) (Fin 1, Fin 0, Fin 0) 0"
  let ?wall = "triangle_of (Fin 0, Fin 0, Fin 0) (Fin 1, Fin 0, Fin 0) (Fin 0, Fin 0, Fin 1) 0"
  have f: "mt_det ?ray ?floor = Fin 1" "mt_u ?ray ?floor = Fin (1 / 4)"
    "mt_v ?ray ?floor = Fin (1 / 4)" "mt_t ?ray ?floor = Fin 1"
    by (simp_all add: mt_det_def mt_u_def mt_v_def mt_t_def upward_ray_def triangle_of_def fsub_def
        round64_zero round64_dyadic)
  have w: "mt_det ?ray ?wall = Fin 0"
    by (simp add: mt_det_def upward_ray_def triangle_of_def fsub_def round64_zero round64_dyadic)
  have tf: "t_far ?ray = PInf" "tri_elem_id ?floor = 0"
    by (simp_all add: upward_ray_def triangle_of_def)
  have hit: "spec_hit ?ray ?floor"
    by (simp add: spec_hit_def f tf fge_def fle_def DETERMINANT_EPS_value round64_dyadic)
  have miss: "\<not> code_hit ?ray ?wall"
    by (simp add: code_hit_def w fgt_def DETERMINANT_EPS_value)
  from ray_triangle_intersect_hit_tests[of ?ray ?floor]
    ray_triangle_intersect_hit_tests[of ?ray ?wall] hit miss f w tf
  show ?thesis by simp
qed

section \<open>Properties of the ray--box kernel\<close>

lemma fmax_not_nan: "a \<noteq> NaN \<Longrightarrow> fmax a b \<noteq> NaN"
  by (simp add: fmax_def)

lemma fmin_not_nan: "a \<noteq> NaN \<Longrightarrow> fmin a b \<noteq> NaN"
  by (simp add: fmin_def)

lemma slab_interval_eq:
  "slab_interval ray bbox =
     (fmax (fmax (fmax NInf (axis_entry ray bbox 0)) (axis_entry ray bbox 1)) (axis_entry ray bbox 2),
      fmin (fmin (fmin PInf (axis_exit ray bbox 0)) (axis_exit ray bbox 1)) (axis_exit ray bbox 2))"
  by (simp add: slab_interval_def slab_step_def INF_f64_def axis_entry_def axis_exit_def Let_def)

lemma slab_interval_not_nan:
  "fst (slab_interval ray bbox) \<noteq> NaN \<and> snd (slab_interval ray bbox) \<noteq> NaN"
  by (simp add: slab_interval_eq fmax_not_nan fmin_not_nan)

lemma fge_fmax_zero:
  "a \<noteq> NaN \<Longrightarrow> b \<noteq> NaN \<Longrightarrow> fge b (fmax a (Fin 0)) = (fle a b \<and> fle (Fin 0) b)"
  by (cases a; cases b) (auto simp: fge_def fle_def fmax_def)

lemma fle_fmax_iff:
  "a \<noteq> NaN \<Longrightarrow> fle (fmax a b) (Fin t) = (fle a (Fin t) \<and> (b = NaN \<or> fle b (Fin t)))"
  by (cases a; cases b) (auto simp: fle_def fmax_def)

lemma fle_fmin_iff:
  "a \<noteq> NaN \<Longrightarrow> fle (Fin t) (fmin a b) = (fle (Fin t) a \<and> (b = NaN \<or> fle (Fin t) b))"
  by (cases a; cases b) (auto simp: fle_def fmin_def)

lemma slab_interval_members:
  "(fle (fst (slab_interval ray bbox)) (Fin t) \<and> fle (Fin t) (snd (slab_interval ray bbox)))
     = (in_axis_interval ray bbox 0 t \<and> in_axis_interval ray bbox 1 t \<and> in_axis_interval ray bbox 2 t)"
proof -
  have "fle NInf (Fin t)" "fle (Fin t) PInf" by (simp_all add: fle_def)
  then show ?thesis
    by (auto simp: slab_interval_eq fle_fmax_iff fle_fmin_iff fmax_not_nan fmin_not_nan
        in_axis_interval_def)
qed

text \<open>
  C6. \<^verbatim>\<open>ray_bbox_intersect\<close> reports a hit exactly when the interval \<open>[tmin, tmax]\<close> it
  accumulates is non-empty and \<open>tmax \<ge> 0\<close>; that interval is the intersection of the three
  per-axis intervals spanned by the entry and exit distances, which are computed with the
  ray's reciprocal direction.
\<close>

theorem ray_bbox_intersect_hit_iff:
  "ray_bbox_intersect ray bbox =
     (fle (fst (slab_interval ray bbox)) (snd (slab_interval ray bbox))
      \<and> fle (Fin 0) (snd (slab_interval ray bbox)))
   \<and> ((fle (fst (slab_interval ray bbox)) (Fin t) \<and> fle (Fin t) (snd (slab_interval ray bbox)))
        = (in_axis_interval ray bbox 0 t \<and> in_axis_interval ray bbox 1 t
           \<and> in_axis_interval ray bbox 2 t))"
  using slab_interval_not_nan[of ray bbox] slab_interval_members[of ray bbox t]
  by (simp add: ray_bbox_intersect_def fge_fmax_zero)

section \<open>Properties of the builder\<close>

lemma partition_loop_length:
  "partition_loop tris mid beg en ax split = Inr (m, tris') \<Longrightarrow> length tris' = length tris"
proof (induction tris mid beg en ax split arbitrary: m tris' rule: partition_loop.induct)
  case (1 tris mid beg en ax split)
  from "1.prems"(1) show ?case
  proof (cases rule: partition_loop_result_cases)
    case finished
    then show ?thesis by simp
  next
    case advance
    from "1.IH"(1)[OF advance(1) _ advance(3) advance(4)] advance(2) show ?thesis by simp
  next
    case swap
    from "1.IH"(2)[OF swap(1) _ swap(3) _ swap(5) swap(6)] swap(2) swap(4)
    show ?thesis by simp
  next
    case skip
    from "1.IH"(3)[OF skip(1) _ skip(3) _ skip(5) skip(6)] skip(2) skip(4)
    show ?thesis by simp
  qed
qed

lemma partition_bvh_length:
  "partition_bvh tris beg en ax split = Inr (m, tris') \<Longrightarrow> length tris' = length tris"
  unfolding partition_bvh_def by (rule partition_loop_length)

lemma partition_loop_total:
  "0 \<le> mid \<Longrightarrow> mid \<le> beg \<Longrightarrow> beg \<le> en \<Longrightarrow> en \<le> int (length tris)
   \<Longrightarrow> \<exists>m tris'. partition_loop tris mid beg en ax split = Inr (m, tris')"
proof (induction tris mid beg en ax split rule: partition_loop.induct)
  case (1 tris mid beg en ax split)
  show ?case
  proof (cases "beg = en")
    case True
    then show ?thesis by (simp add: partition_loop_done)
  next
    case False
    with "1.prems" have r: "in_range tris mid" "in_range tris beg"
      by (auto simp: in_range_def)
    from False "1.prems" have b: "0 \<le> mid + 1" "mid + 1 \<le> beg + 1" "beg + 1 \<le> en" "mid \<le> beg + 1"
      by auto
    show ?thesis
    proof (cases "fgt (idx (centroid (tris ! nat mid)) ax) split")
      case True
      from "1.IH"(1)[OF False _ True b(1) b(2) b(3) "1.prems"(4)] r False True
      show ?thesis by (simp add: partition_loop_advance)
    next
      case nmid: False
      show ?thesis
      proof (cases "fgt (idx (centroid (tris ! nat beg)) ax) split")
        case True
        have "en \<le> int (length (tris[nat mid := tris ! nat beg, nat beg := tris ! nat mid]))"
          using "1.prems"(4) by simp
        from "1.IH"(2)[OF False _ nmid _ True b(1) b(2) b(3) this] r False nmid True
        show ?thesis by (simp add: partition_loop_swap)
      next
        case nbeg: False
        from "1.IH"(3)[OF False _ nmid _ nbeg "1.prems"(1) b(4) b(3) "1.prems"(4)] r False nmid nbeg
        show ?thesis by (simp add: partition_loop_skip)
      qed
    qed
  qed
qed

lemma partition_bvh_total:
  "0 \<le> beg \<Longrightarrow> beg \<le> en \<Longrightarrow> en \<le> int (length tris)
   \<Longrightarrow> \<exists>m tris'. partition_bvh tris beg en ax split = Inr (m, tris')"
  unfolding partition_bvh_def by (rule partition_loop_total) simp_all

lemma bbox_loop_total:
  "0 \<le> i \<Longrightarrow> en \<le> int (length tris) \<Longrightarrow> \<exists>b. bbox_loop tris box i en = Inr b"
proof (induction tris box i en rule: bbox_loop.induct)
  case (1 tris box i en)
  show ?case
  proof (cases "i < en")
    case True
    with "1.prems" have r: "in_range tris i" by (simp add: in_range_def)
    from "1.prems" have "0 \<le> i + 1" by simp
    from "1.IH"[OF True r this "1.prems"(2)]
    obtain b where "bbox_loop tris (grow_bbox box (tri_bbox (tris ! nat i))) (i + 1) en = Inr b"
      by blast
    with True r have "bbox_loop tris box i en = Inr b"
      by (subst bbox_loop.simps) simp
    then show ?thesis by blast
  next
    case False
    then show ?thesis by (subst bbox_loop.simps) simp
  qed
qed

lemma get_node_bbox_total:
  "0 \<le> beg \<Longrightarrow> beg < en \<Longrightarrow> en \<le> int (length tris) \<Longrightarrow> \<exists>b. get_node_bbox tris beg en = Inr b"
  using bbox_loop_total[of "beg + 1" en tris "tri_bbox (tris ! nat beg)"]
  by (simp add: get_node_bbox_def in_range_def)

lemma recursive_build_cases:
  assumes "recursive_build tris beg en = Inr (node, tris')"
  obtains (leaf) box where "get_node_bbox tris beg en = Inr box" "en - beg \<le> LEAF_SIZE"
      "node = Leaf beg en box" "tris' = tris"
  | (inner) box mid0 tris1 l tris2 r where "get_node_bbox tris beg en = Inr box"
      "\<not> en - beg \<le> LEAF_SIZE"
      "partition_bvh tris beg en (split_axis box) (split_value box (split_axis box)) = Inr (mid0, tris1)"
      "recursive_build tris1 beg (forced_mid beg en mid0) = Inr (l, tris2)"
      "recursive_build tris2 (forced_mid beg en mid0) en = Inr (r, tris')"
      "node = Inner beg en box l r"
  using assms
  by (subst (asm) recursive_build.simps) (auto simp: Let_def split: sum.splits if_splits prod.splits)

lemma recursive_build_shape:
  "recursive_build tris beg en = Inr (node, tris')
   \<Longrightarrow> node_begin node = beg \<and> node_end node = en \<and> length tris' = length tris \<and> tree_ok node"
proof (induction tris beg en arbitrary: node tris' rule: recursive_build.induct)
  case (1 tris beg en)
  from "1.prems" show ?case
  proof (cases rule: recursive_build_cases)
    case (leaf box)
    then show ?thesis by simp
  next
    case (inner box mid0 tris1 l tris2 r)
    let ?mid = "forced_mid beg en mid0"
    from inner(2) have le: "beg \<le> en" by (simp add: LEAF_SIZE_def)
    from partition_bvh_mid[OF inner(3) le] inner(2)
    have mid: "beg < ?mid" "?mid < en"
      using forced_mid_strict[of en beg mid0] by auto
    have L: "node_begin l = beg \<and> node_end l = ?mid \<and> length tris2 = length tris1 \<and> tree_ok l"
      using "1.IH"(1)[OF inner(1) inner(2) refl refl inner(3) refl refl inner(4)] .
    have R: "node_begin r = ?mid \<and> node_end r = en \<and> length tris' = length tris2 \<and> tree_ok r"
      using "1.IH"(2)[OF inner(1) inner(2) refl refl inner(3) refl refl inner(4) refl inner(5)] .
    from L R mid inner(2) inner(6) partition_bvh_length[OF inner(3)] show ?thesis by simp
  qed
qed

lemma recursive_build_total:
  "0 \<le> beg \<Longrightarrow> beg < en \<Longrightarrow> en \<le> int (length tris)
   \<Longrightarrow> \<exists>node tris'. recursive_build tris beg en = Inr (node, tris')"
proof (induction tris beg en rule: recursive_build.induct)
  case (1 tris beg en)
  from get_node_bbox_total[OF "1.prems"] obtain box where box: "get_node_bbox tris beg en = Inr box"
    by blast
  show ?case
  proof (cases "en - beg \<le> LEAF_SIZE")
    case True
    with box show ?thesis by (subst recursive_build.simps) simp
  next
    case False
    from "1.prems" have le: "beg \<le> en" by simp
    from partition_bvh_total[OF "1.prems"(1) le "1.prems"(3)]
    obtain mid0 tris1 where
      part: "partition_bvh tris beg en (split_axis box) (split_value box (split_axis box)) = Inr (mid0, tris1)"
      by blast
    let ?mid = "forced_mid beg en mid0"
    from partition_bvh_mid[OF part le] False
    have mid: "beg < ?mid" "?mid < en"
      using forced_mid_strict[of en beg mid0] by auto
    have len1: "length tris1 = length tris" by (rule partition_bvh_length[OF part])
    from mid "1.prems" len1 have "?mid \<le> int (length tris1)" by simp
    from "1.IH"(1)[OF box False refl refl part refl refl "1.prems"(1) mid(1) this]
    obtain l tris2 where left: "recursive_build tris1 beg ?mid = Inr (l, tris2)" by blast
    from recursive_build_shape[OF left] have len2: "length tris2 = length tris1" by simp
    from mid "1.prems" have "0 \<le> ?mid" by simp
    moreover from "1.prems" len1 len2 have "en \<le> int (length tris2)" by simp
    ultimately obtain r tris3 where right: "recursive_build tris2 ?mid en = Inr (r, tris3)"
      using "1.IH"(2)[OF box False refl refl part refl refl left refl _ mid(2)] by blast
    from box False part left right show ?thesis
      by (subst recursive_build.simps) (simp add: Let_def)
  qed
qed

lemma tree_ok_ranges_partition: "tree_ok t \<Longrightarrow> n \<in> set (nodes t) \<Longrightarrow> ranges_partition n"
  by (induction t) auto

lemma tree_ok_children_shrink: "tree_ok t \<Longrightarrow> n \<in> set (nodes t) \<Longrightarrow> children_shrink n"
  by (induction t) auto

lemma tree_ok_leaf_rule:
  "tree_ok t \<Longrightarrow> n \<in> set (nodes t) \<Longrightarrow> is_leaf n = (node_end n - node_begin n \<le> LEAF_SIZE)"
  by (induction t) auto

lemma tree_ok_within:
  "tree_ok t \<Longrightarrow> node_begin t < node_end t \<Longrightarrow> n \<in> set (nodes t)
   \<Longrightarrow> node_begin t \<le> node_begin n \<and> node_begin n < node_end n \<and> node_end n \<le> node_end t"
proof (induction t)
  case (Leaf b e box)
  then show ?case by simp
next
  case (Inner b e box l r)
  from Inner.prems(1) have ok: "tree_ok l" "tree_ok r"
    and rng: "node_begin l = b" "node_end l = node_begin r" "node_end r = e"
      "b < node_end l" "node_end l < e"
    by simp_all
  from Inner.prems(3) consider "n = Inner b e box l r" | "n \<in> set (nodes l)" | "n \<in> set (nodes r)"
    by auto
  then show ?case
  proof cases
    case 1
    with Inner.prems(2) show ?thesis by simp
  next
    case 2
    from Inner.IH(1)[OF ok(1) _ 2] rng show ?thesis by simp
  next
    case 3
    from Inner.IH(2)[OF ok(2) _ 3] rng show ?thesis by simp
  qed
qed

lemma recursive_build_empty: "recursive_build [] 0 0 = Inl OutOfBounds"
  by (subst recursive_build.simps) (simp add: get_node_bbox_def in_range_def)

lemma get_node_bbox_oob: "\<not> in_range tris beg \<Longrightarrow> get_node_bbox tris beg en = Inl OutOfBounds"
  by (simp add: get_node_bbox_def)

subsection \<open>The builder on the sample strip\<close>

text \<open>
  The centroid of triangle \<open>k\<close> of the strip is the double nearest to \<open>k + 1/3\<close> in x and
  the double nearest to \<open>1/3\<close> in y.
\<close>

lemma strip_tri_centroid:
  "centroid (strip_tri 0) = (Fin (6004799503160661 / 2 ^ 54), Fin (6004799503160661 / 2 ^ 54), Fin 0)"
  "centroid (strip_tri 1) = (Fin (6004799503160661 / 2 ^ 52), Fin (6004799503160661 / 2 ^ 54), Fin 0)"
  "centroid (strip_tri 2) = (Fin (5254199565265579 / 2 ^ 51), Fin (6004799503160661 / 2 ^ 54), Fin 0)"
  "centroid (strip_tri 3) = (Fin (7505999378950827 / 2 ^ 51), Fin (6004799503160661 / 2 ^ 54), Fin 0)"
  "centroid (strip_tri 4) = (Fin (4878899596318037 / 2 ^ 50), Fin (6004799503160661 / 2 ^ 54), Fin 0)"
  "centroid (strip_tri 5) = (Fin (6004799503160661 / 2 ^ 50), Fin (6004799503160661 / 2 ^ 54), Fin 0)"
  "centroid (strip_tri 6) = (Fin (7130699410003285 / 2 ^ 50), Fin (6004799503160661 / 2 ^ 54), Fin 0)"
  "centroid (strip_tri 7) = (Fin (8256599316845909 / 2 ^ 50), Fin (6004799503160661 / 2 ^ 54), Fin 0)"
  "centroid (strip_tri 8) = (Fin (4691249611844267 / 2 ^ 49), Fin (6004799503160661 / 2 ^ 54), Fin 0)"
  "centroid (strip_tri 9) = (Fin (5254199565265579 / 2 ^ 49), Fin (6004799503160661 / 2 ^ 54), Fin 0)"
  "centroid (strip_tri 10) = (Fin (5817149518686891 / 2 ^ 49), Fin (6004799503160661 / 2 ^ 54), Fin 0)"
  "centroid (strip_tri 11) = (Fin (6380099472108203 / 2 ^ 49), Fin (6004799503160661 / 2 ^ 54), Fin 0)"
  "centroid (strip_tri 12) = (Fin (6943049425529515 / 2 ^ 49), Fin (6004799503160661 / 2 ^ 54), Fin 0)"
  "centroid (strip_tri 13) = (Fin (7505999378950827 / 2 ^ 49), Fin (6004799503160661 / 2 ^ 54), Fin 0)"
  "centroid (strip_tri 14) = (Fin (8068949332372139 / 2 ^ 49), Fin (6004799503160661 / 2 ^ 54), Fin 0)"
  "centroid (strip_tri 15) = (Fin (8631899285793451 / 2 ^ 49), Fin (6004799503160661 / 2 ^ 54), Fin 0)"
  "centroid (strip_tri 16) = (Fin (4597424619607381 / 2 ^ 48), Fin (6004799503160661 / 2 ^ 54), Fin 0)"
  by (simp_all add: strip_tri_def triangle_of_def round64_zero round64_dyadic round64_thirds)

lemma strip_tri_bbox:
  "tri_bbox (strip_tri k) = \<lparr>left_edge = (Fin (of_int k), Fin 0, Fin 0),
                              right_edge = (Fin (of_int k + 1), Fin 1, Fin 0)\<rparr>"
  by (simp add: strip_tri_def triangle_of_def fmin_def fmax_def)

lemma strip17_bbox:
  "get_node_bbox strip17 0 17
     = Inr \<lparr>left_edge = (Fin 0, Fin 0, Fin 0), right_edge = (Fin 17, Fin 1, Fin 0)\<rparr>"
  by (simp add: get_node_bbox_def in_range_def strip17_def bbox_loop.simps strip_tri_bbox
      grow_bbox_def fmin_def fmax_def)

lemma strip17_partition:
  "partition_bvh strip17 0 17 0 (Fin (17 / 2)) = Inr (8, strip17_sorted)"
  by (simp add: partition_bvh_def partition_loop.simps in_range_def strip17_def
      strip17_sorted_def strip_tri_centroid fgt_def)

lemma strip17_bbox_left:
  "get_node_bbox strip17_sorted 0 8
     = Inr \<lparr>left_edge = (Fin 9, Fin 0, Fin 0), right_edge = (Fin 17, Fin 1, Fin 0)\<rparr>"
  by (simp add: get_node_bbox_def in_range_def strip17_sorted_def bbox_loop.simps
      strip_tri_bbox grow_bbox_def fmin_def fmax_def)

lemma strip17_bbox_right:
  "get_node_bbox strip17_sorted 8 17
     = Inr \<lparr>left_edge = (Fin 0, Fin 0, Fin 0), right_edge = (Fin 9, Fin 1, Fin 0)\<rparr>"
  by (simp add: get_node_bbox_def in_range_def strip17_sorted_def bbox_loop.simps
      strip_tri_bbox grow_bbox_def fmin_def fmax_def)

lemma strip17_build: "recursive_build strip17 0 17 = Inr (strip17_tree, strip17_sorted)"
  by (simp add: recursive_build.simps[of strip17 0 17] recursive_build.simps[of strip17_sorted]
      strip17_bbox strip17_bbox_left strip17_bbox_right strip17_partition LEAF_SIZE_def
      split_axis_def split_value_def fgt_def fsub_def forced_mid_def Let_def strip17_tree_def
      round64_zero round64_dyadic)

lemma strip17_length: "int (length strip17) = 17" "strip17 \<noteq> []"
  by (simp_all add: strip17_def)

subsection \<open>The constructor on the sample tetrahedron\<close>

lemma range_list_simps:
  "range_list 0 = []" "range_list 1 = [0]" "range_list 2 = [0, 1]"
  "range_list 4 = [0, 1, 2, 3]" "range_list 5 = [0, 1, 2, 3, 4]"
  by (simp_all add: range_list_def upt_rec)

lemma get_simps:
  "get (x # xs) 0 = Inr x"
  "0 < i \<Longrightarrow> get (x # xs) i = get xs (i - 1)"
  "get [] i = Inl OutOfBounds"
  by (auto simp: get_def in_range_def nat_diff_distrib' Suc_nat_eq_nat_zadd1 nth_Cons split: nat.splits)

lemma tetra_tris_bbox: "get_node_bbox tetra_tris 0 4 = Inr unit_box"
  by (simp add: get_node_bbox_def in_range_def tetra_tris_def bbox_loop.simps triangle_of_def
      grow_bbox_def fmin_def fmax_def unit_box_def)

lemma tetra_build: "recursive_build tetra_tris 0 4 = Inr (Leaf 0 4 unit_box, tetra_tris)"
  by (simp add: recursive_build.simps[of tetra_tris 0 4] tetra_tris_bbox LEAF_SIZE_def)

lemma tetra_cinit:
  "bvh_cinit sample_tables tetra_verts [[0, 1, 2, 3]] 4 [[Fin 10, Fin 20, Fin 30, Fin 40]]
     = Inr tetra_bvh"
  by (simp add: bvh_cinit_def select_topology_def sample_tables_def range_list_simps bindE_def
      get_simps tetra_verts_def make_triangle_def tetra_tris_def[symmetric] tetra_build
      tetra_bvh_def)

lemma bvh_cinit_no_elements: "bvh_cinit tb verts [] nv fdata = Inl OutOfBounds"
  by (simp add: bvh_cinit_def range_list_def bindE_def recursive_build_empty)

text \<open>
  C5. In every tree built over a non-empty triangle array, each internal node has two
  children whose ranges partition its own: the left child starts where the node starts,
  the right child starts where the left one ends, and ends where the node ends. The
  builder returns such a tree for every array of at least one triangle.
\<close>

theorem recursive_build_children_partition:
  "tris \<noteq> [] \<Longrightarrow>
     \<exists>t tris'. recursive_build tris 0 (int (length tris)) = Inr (t, tris')
        \<and> (\<forall>n \<in> set (nodes t). ranges_partition n)"
proof -
  assume ne: "tris \<noteq> []"
  then have "0 < int (length tris)" by simp
  from recursive_build_total[OF _ this, of tris] obtain t tris'
    where b: "recursive_build tris 0 (int (length tris)) = Inr (t, tris')" by auto
  from recursive_build_shape[OF b] have "tree_ok t" by simp
  then have "\<forall>n \<in> set (nodes t). ranges_partition n"
    by (simp add: tree_ok_ranges_partition)
  with b show ?thesis by blast
qed

theorem recursive_build_children_partition_witness:
  "strip17 \<noteq> []
   \<and> recursive_build strip17 0 (int (length strip17)) = Inr (strip17_tree, strip17_sorted)
   \<and> ranges_partition strip17_tree
   \<and> node_begin (node_left strip17_tree) = 0
   \<and> node_end (node_left strip17_tree) = 8
   \<and> node_begin (node_right strip17_tree) = 8
   \<and> node_end (node_right strip17_tree) = 17"
  using recursive_build_children_partition[of strip17]
  by (simp add: strip17_length strip17_build) (simp add: strip17_tree_def)

text \<open>
  C7. The builder returns for every non-empty range inside the array. When the partition
  leaves one side empty (\<open>mid = begin\<close> or \<open>mid = end\<close>) the boundary becomes
  \<open>begin + (end - begin) / 2\<close>; for a range of more than \<open>LEAF_SIZE\<close> triangles the
  boundary then lies strictly inside the range, so both children of every internal node
  are non-empty and strictly smaller than their parent.
\<close>

theorem recursive_build_terminates:
  "0 \<le> beg \<Longrightarrow> beg < en \<Longrightarrow> en \<le> int (length tris) \<Longrightarrow>
     (\<exists>t tris'. recursive_build tris beg en = Inr (t, tris')
        \<and> (\<forall>n \<in> set (nodes t). children_shrink n))
     \<and> (\<forall>m. m = beg \<or> m = en \<longrightarrow> forced_mid beg en m = beg + (en - beg) div 2)
     \<and> (\<forall>m. LEAF_SIZE < en - beg \<and> beg \<le> m \<and> m \<le> en
            \<longrightarrow> beg < forced_mid beg en m \<and> forced_mid beg en m < en)"
proof -
  assume a: "0 \<le> beg" "beg < en" "en \<le> int (length tris)"
  from recursive_build_total[OF a] obtain t tris'
    where b: "recursive_build tris beg en = Inr (t, tris')" by auto
  from recursive_build_shape[OF b] have "tree_ok t" by simp
  then have "\<forall>n \<in> set (nodes t). children_shrink n"
    by (simp add: tree_ok_children_shrink)
  with b have 1: "\<exists>t tris'. recursive_build tris beg en = Inr (t, tris')
        \<and> (\<forall>n \<in> set (nodes t). children_shrink n)" by blast
  have 2: "\<forall>m. m = beg \<or> m = en \<longrightarrow> forced_mid beg en m = beg + (en - beg) div 2"
    by (simp add: forced_mid_def)
  have 3: "\<forall>m. LEAF_SIZE < en - beg \<and> beg \<le> m \<and> m \<le> en
            \<longrightarrow> beg < forced_mid beg en m \<and> forced_mid beg en m < en"
    using forced_mid_strict[of en beg] by blast
  from 1 2 3 show ?thesis by blast
qed

theorem recursive_build_terminates_witness:
  "(0::int) \<le> 0 \<and> (0::int) < 17 \<and> 17 \<le> int (length strip17)
   \<and> recursive_build strip17 0 17 = Inr (strip17_tree, strip17_sorted)
   \<and> children_shrink strip17_tree
   \<and> forced_mid 0 17 0 = 8 \<and> forced_mid 0 17 17 = 8 \<and> forced_mid 0 17 5 = 5"
  using recursive_build_terminates[of 0 17 strip17]
  by (simp add: strip17_length strip17_build) (simp add: strip17_tree_def forced_mid_def LEAF_SIZE_def)

text \<open>
  C8. In every tree the builder returns, a node is a leaf exactly when its range holds at
  most \<open>LEAF_SIZE = 16\<close> triangles; so every leaf holds at most 16 triangles, and the
  root is itself a leaf when the whole range holds at most 16.
\<close>

theorem recursive_build_leaf_iff:
  "recursive_build tris beg en = Inr (t, tris') \<Longrightarrow>
     LEAF_SIZE = 16
     \<and> (\<forall>n \<in> set (nodes t). is_leaf n = (node_end n - node_begin n \<le> LEAF_SIZE))
     \<and> (\<forall>n \<in> set (nodes t). is_leaf n \<longrightarrow> node_end n - node_begin n \<le> 16)
     \<and> (en - beg \<le> LEAF_SIZE \<longrightarrow> is_leaf t)"
proof -
  assume b: "recursive_build tris beg en = Inr (t, tris')"
  from recursive_build_shape[OF b] have ok: "tree_ok t" and be: "node_begin t = beg" "node_end t = en"
    by simp_all
  have t: "t \<in> set (nodes t)" by (cases t) simp_all
  from ok have 1: "\<forall>n \<in> set (nodes t). is_leaf n = (node_end n - node_begin n \<le> LEAF_SIZE)"
    by (simp add: tree_ok_leaf_rule)
  then have 2: "\<forall>n \<in> set (nodes t). is_leaf n \<longrightarrow> node_end n - node_begin n \<le> 16"
    by (simp add: LEAF_SIZE_def)
  from 1 t be have 3: "en - beg \<le> LEAF_SIZE \<longrightarrow> is_leaf t" by auto
  from 1 2 3 show ?thesis by (simp add: LEAF_SIZE_def)
qed

theorem recursive_build_leaf_iff_witness:
  "recursive_build strip17 0 17 = Inr (strip17_tree, strip17_sorted)
   \<and> \<not> is_leaf strip17_tree
   \<and> is_leaf (node_left strip17_tree) \<and> is_leaf (node_right strip17_tree)
   \<and> recursive_build tetra_tris 0 4 = Inr (Leaf 0 4 unit_box, tetra_tris)
   \<and> is_leaf (Leaf 0 4 unit_box)"
  using recursive_build_leaf_iff[OF strip17_build] recursive_build_leaf_iff[OF tetra_build]
  by (simp add: strip17_build tetra_build) (simp add: strip17_tree_def)

text \<open>
  C10. \<^verbatim>\<open>_get_node_bbox\<close> reads the triangle at index \<open>begin\<close> whatever the range: it
  faults when that index is outside the array, in particular for the empty range at the
  array's end, and returns a box for every non-empty range inside the array. A BVH over
  zero elements passes the empty range \<open>[0, 0)\<close> of an empty array, and faults. Over a
  non-empty array the builder returns, and every range it passes is non-empty and inside
  the array.
\<close>

theorem get_node_bbox_bounds:
  "(\<not> in_range tris beg \<longrightarrow> get_node_bbox tris beg en = Inl OutOfBounds)
   \<and> get_node_bbox tris (int (length tris)) (int (length tris)) = Inl OutOfBounds
   \<and> (0 \<le> beg \<and> beg < en \<and> en \<le> int (length tris)
        \<longrightarrow> (\<exists>box. get_node_bbox tris beg en = Inr box))
   \<and> recursive_build [] 0 0 = Inl OutOfBounds
   \<and> bvh_cinit tb verts [] nv fdata = Inl OutOfBounds
   \<and> (tris \<noteq> [] \<longrightarrow>
        (\<exists>t tris'. recursive_build tris 0 (int (length tris)) = Inr (t, tris')
           \<and> (\<forall>n \<in> set (nodes t).
                 0 \<le> node_begin n \<and> node_begin n < node_end n
                 \<and> node_end n \<le> int (length tris))))"
proof -
  have 1: "\<not> in_range tris beg \<longrightarrow> get_node_bbox tris beg en = Inl OutOfBounds"
    by (simp add: get_node_bbox_oob)
  have 2: "get_node_bbox tris (int (length tris)) (int (length tris)) = Inl OutOfBounds"
    by (simp add: get_node_bbox_def in_range_def)
  have 3: "0 \<le> beg \<and> beg < en \<and> en \<le> int (length tris)
        \<longrightarrow> (\<exists>box. get_node_bbox tris beg en = Inr box)"
    using get_node_bbox_total[of beg en tris] by blast
  have 4: "tris \<noteq> [] \<longrightarrow>
        (\<exists>t tris'. recursive_build tris 0 (int (length tris)) = Inr (t, tris')
           \<and> (\<forall>n \<in> set (nodes t).
                 0 \<le> node_begin n \<and> node_begin n < node_end n
                 \<and> node_end n \<le> int (length tris)))"
  proof
    assume "tris \<noteq> []"
    then have pos: "0 < int (length tris)" by simp
    from recursive_build_total[OF _ pos, of tris] obtain t tris'
      where b: "recursive_build tris 0 (int (length tris)) = Inr (t, tris')" by auto
    from recursive_build_shape[OF b]
    have ok: "tree_ok t" and be: "node_begin t = 0" "node_end t = int (length tris)"
      by simp_all
    from be pos have "node_begin t < node_end t" by simp
    from tree_ok_within[OF ok this] be
    have "\<forall>n \<in> set (nodes t). 0 \<le> node_begin n \<and> node_begin n < node_end n
                 \<and> node_end n \<le> int (length tris)" by auto
    with b show "\<exists>t tris'. recursive_build tris 0 (int (length tris)) = Inr (t, tris')
           \<and> (\<forall>n \<in> set (nodes t).
                 0 \<le> node_begin n \<and> node_begin n < node_end n
                 \<and> node_end n \<le> int (length tris))" by blast
  qed
  from 1 2 3 4 recursive_build_empty bvh_cinit_no_elements show ?thesis by blast
qed

theorem get_node_bbox_bounds_witness:
  "\<not> in_range strip17 17 \<and> get_node_bbox strip17 17 17 = Inl OutOfBounds
   \<and> get_node_bbox strip17 0 17
       = Inr \<lparr>left_edge = (Fin 0, Fin 0, Fin 0), right_edge = (Fin 17, Fin 1, Fin 0)\<rparr>
   \<and> recursive_build [] 0 0 = Inl OutOfBounds
   \<and> bvh_cinit sample_tables tetra_verts [] 4 [] = Inl OutOfBounds
   \<and> strip17 \<noteq> []
   \<and> recursive_build strip17 0 (int (length strip17)) = Inr (strip17_tree, strip17_sorted)
   \<and> list_all (\<lambda>n. 0 \<le> node_begin n \<and> node_begin n < node_end n \<and> node_end n \<le> 17)
        (nodes strip17_tree)"
  using get_node_bbox_bounds[of strip17 17 17 sample_tables tetra_verts 4 "[]"]
  by (simp add: strip17_length strip17_build strip17_bbox in_range_def)
     (simp add: strip17_tree_def)

section \<open>Properties of the traversal and of the driver\<close>

text \<open>The traversal writes neither \<open>data_val\<close> nor the direction of the ray.\<close>

lemma rti_data_val: "data_val (snd (ray_triangle_intersect ray tri)) = data_val ray"
  by (simp add: rti_code_hit)

lemma leaf_scan_data_val: "leaf_scan tris ray i en = Inr ray' \<Longrightarrow> data_val ray' = data_val ray"
proof (induction tris ray i en rule: leaf_scan.induct)
  case (1 tris ray i en)
  show ?case
  proof (cases "i < en")
    case False
    with "1.prems" show ?thesis by (subst (asm) leaf_scan.simps) simp
  next
    case True
    from True "1.prems" have r: "in_range tris i"
      by (subst (asm) leaf_scan.simps) (simp split: if_splits)
    with True "1.prems"
    have "leaf_scan tris (snd (ray_triangle_intersect ray (tris ! nat i))) (i + 1) en = Inr ray'"
      by (subst (asm) leaf_scan.simps) simp
    from "1.IH"[OF True r this] show ?thesis by (simp add: rti_data_val)
  qed
qed

lemma recursive_intersect_data_val:
  "recursive_intersect tris ray node = Inr ray' \<Longrightarrow> data_val ray' = data_val ray"
proof (induction node arbitrary: ray ray')
  case (Leaf b e box)
  then show ?case by (auto split: if_splits dest: leaf_scan_data_val)
next
  case (Inner b e box l r)
  show ?case
  proof (cases "\<not> ray_bbox_intersect ray box \<or> e - b \<le> LEAF_SIZE")
    case True
    with Inner.prems show ?thesis by (auto split: if_splits dest: leaf_scan_data_val)
  next
    case False
    with Inner.prems obtain ray1 where l: "recursive_intersect tris ray l = Inr ray1"
      and r: "recursive_intersect tris ray1 r = Inr ray'"
      by (auto split: sum.splits)
    from Inner.IH(1)[OF l] Inner.IH(2)[OF r] show ?thesis by simp
  qed
qed

lemma rti_dirs:
  "direction (snd (ray_triangle_intersect ray tri)) = direction ray
   \<and> inv_dir (snd (ray_triangle_intersect ray tri)) = inv_dir ray"
  by (simp add: rti_code_hit)

lemma leaf_scan_dirs:
  "leaf_scan tris ray i en = Inr ray' \<Longrightarrow> direction ray' = direction ray \<and> inv_dir ray' = inv_dir ray"
proof (induction tris ray i en rule: leaf_scan.induct)
  case (1 tris ray i en)
  show ?case
  proof (cases "i < en")
    case False
    with "1.prems" show ?thesis by (subst (asm) leaf_scan.simps) simp
  next
    case True
    from True "1.prems" have r: "in_range tris i"
      by (subst (asm) leaf_scan.simps) (simp split: if_splits)
    with True "1.prems"
    have "leaf_scan tris (snd (ray_triangle_intersect ray (tris ! nat i))) (i + 1) en = Inr ray'"
      by (subst (asm) leaf_scan.simps) simp
    from "1.IH"[OF True r this] show ?thesis by (simp add: rti_dirs)
  qed
qed

lemma recursive_intersect_dirs:
  "recursive_intersect tris ray node = Inr ray'
   \<Longrightarrow> direction ray' = direction ray \<and> inv_dir ray' = inv_dir ray"
proof (induction node arbitrary: ray ray')
  case (Leaf b e box)
  then show ?case by (auto split: if_splits dest: leaf_scan_dirs)
next
  case (Inner b e box l r)
  show ?case
  proof (cases "\<not> ray_bbox_intersect ray box \<or> e - b \<le> LEAF_SIZE")
    case True
    with Inner.prems show ?thesis by (auto split: if_splits dest: leaf_scan_dirs)
  next
    case False
    with Inner.prems obtain ray1 where l: "recursive_intersect tris ray l = Inr ray1"
      and r: "recursive_intersect tris ray1 r = Inr ray'"
      by (auto split: sum.splits)
    from Inner.IH(1)[OF l] Inner.IH(2)[OF r] show ?thesis by simp
  qed
qed

lemma intersect_dirs:
  "intersect sample bvh ray = Inr (ray', cs)
   \<Longrightarrow> direction ray' = direction ray \<and> inv_dir ray' = inv_dir ray"
  by (auto simp: intersect_def Let_def split: sum.splits if_splits option.splits
      dest: recursive_intersect_dirs)

text \<open>
  The field \<open>near_boundary\<close> is the only one that the driver leaves as the previous ray
  set it. The traversal does not read it: changing it in the ray that enters changes it in
  the ray that leaves, and nothing else.
\<close>

lemma rti_near_boundary:
  "ray_triangle_intersect (ray\<lparr>near_boundary := b\<rparr>) tri
     = (fst (ray_triangle_intersect ray tri),
        (snd (ray_triangle_intersect ray tri))\<lparr>near_boundary := b\<rparr>)"
  by (simp add: rti_code_hit code_hit_def mt_det_def mt_u_def mt_v_def mt_t_def)

lemma bbox_near_boundary:
  "ray_bbox_intersect (ray\<lparr>near_boundary := b\<rparr>) box = ray_bbox_intersect ray box"
  by (simp add: ray_bbox_intersect_def slab_interval_def slab_step_def)

lemma leaf_scan_near_boundary:
  "leaf_scan tris (ray\<lparr>near_boundary := b\<rparr>) i en
     = (case leaf_scan tris ray i en of
          Inl err \<Rightarrow> Inl err
        | Inr r \<Rightarrow> Inr (r\<lparr>near_boundary := b\<rparr>))"
proof (induction tris ray i en rule: leaf_scan.induct)
  case (1 tris ray i en)
  show ?case
  proof (cases "i < en \<and> in_range tris i")
    case False
    then show ?thesis
      by (subst leaf_scan.simps, subst (2) leaf_scan.simps) auto
  next
    case True
    then have t: "i < en" "in_range tris i" by simp_all
    have a: "leaf_scan tris (ray\<lparr>near_boundary := b\<rparr>) i en
            = leaf_scan tris ((snd (ray_triangle_intersect ray (tris ! nat i)))\<lparr>near_boundary := b\<rparr>)
                (i + 1) en"
      using t by (subst leaf_scan.simps) (simp add: rti_near_boundary)
    have c: "leaf_scan tris ray i en
                 = leaf_scan tris (snd (ray_triangle_intersect ray (tris ! nat i))) (i + 1) en"
      using t by (subst leaf_scan.simps) simp
    show ?thesis unfolding a c by (rule "1.IH"[OF t])
  qed
qed

lemma recursive_intersect_near_boundary:
  "recursive_intersect tris (ray\<lparr>near_boundary := b\<rparr>) node
     = (case recursive_intersect tris ray node of
          Inl err \<Rightarrow> Inl err
        | Inr r \<Rightarrow> Inr (r\<lparr>near_boundary := b\<rparr>))"
proof (induction node arbitrary: ray)
  case (Leaf bg en box)
  show ?case by (simp add: bbox_near_boundary leaf_scan_near_boundary)
next
  case (Inner bg en box l r)
  show ?case
  proof (cases "recursive_intersect tris ray l")
    case (Inl err)
    then show ?thesis
      by (simp add: bbox_near_boundary leaf_scan_near_boundary Inner.IH(1))
  next
    case (Inr ray1)
    then show ?thesis
      by (simp add: bbox_near_boundary leaf_scan_near_boundary Inner.IH(1) Inner.IH(2))
  qed
qed

lemma intersect_near_boundary:
  "intersect sample bvh (ray\<lparr>near_boundary := b\<rparr>)
     = (case intersect sample bvh ray of
          Inl err \<Rightarrow> Inl err
        | Inr res \<Rightarrow> Inr (if elem_id (fst res) < 0 then (fst res)\<lparr>near_boundary := b\<rparr>
                           else fst res, snd res))"
proof (cases "recursive_intersect (triangles bvh) ray (root bvh)")
  case (Inl err)
  then show ?thesis by (simp add: intersect_def recursive_intersect_near_boundary)
next
  case (Inr ray1)
  then show ?thesis
    by (cases "sampler bvh") (simp_all add: intersect_def recursive_intersect_near_boundary Let_def)
qed

text \<open>
  So what the driver observes of ray \<open>i\<close> depends on the worker's ray through its
  direction only: it is the same for the ray that the previous iterations left and for
  the ray the worker started with.
\<close>

lemma prepare_ray_worker:
  "direction w = direction w' \<Longrightarrow> inv_dir w = inv_dir w'
   \<Longrightarrow> prepare_ray w orig = (prepare_ray w' orig)\<lparr>near_boundary := near_boundary w\<rparr>"
  by (cases w; cases w') (simp add: prepare_ray_def)

lemma intersect_worker:
  assumes "direction w = direction w'" "inv_dir w = inv_dir w'"
  shows "(case intersect sample bvh (prepare_ray w orig) of
            Inl err \<Rightarrow> Inl err | Inr res \<Rightarrow> Inr (data_val (fst res), snd res))
       = (case intersect sample bvh (prepare_ray w' orig) of
            Inl err \<Rightarrow> Inl err | Inr res \<Rightarrow> Inr (data_val (fst res), snd res))"
  unfolding prepare_ray_worker[OF assms] intersect_near_boundary
  by (cases "intersect sample bvh (prepare_ray w' orig)") simp_all

lemma ray_value_worker:
  assumes "direction w = direction w'" "inv_dir w = inv_dir w'"
  shows "ray_value sample bvh origins N w i = ray_value sample bvh origins N w' i"
proof (cases "get origins (origin_index N 0 i)")
  case (Inl err)
  then show ?thesis by (simp add: ray_value_def trace_ray_def bindE_def)
next
  case o0: (Inr o0)
  show ?thesis
  proof (cases "get origins (origin_index N 1 i)")
    case (Inl err)
    with o0 show ?thesis by (simp add: ray_value_def trace_ray_def bindE_def)
  next
    case o1: (Inr o1)
    show ?thesis
    proof (cases "get origins (origin_index N 2 i)")
      case (Inl err)
      with o0 o1 show ?thesis by (simp add: ray_value_def trace_ray_def bindE_def)
    next
      case o2: (Inr o2)
      from o0 o1 o2 intersect_worker[OF assms, of sample bvh "(o0, o1, o2)"]
      show ?thesis by (simp add: ray_value_def trace_ray_def bindE_def)
    qed
  qed
qed

lemma ray_calls_value:
  "ray_calls sample bvh origins N w i
     = (case ray_value sample bvh origins N w i of Inl err \<Rightarrow> [] | Inr res \<Rightarrow> snd res)"
  by (cases "trace_ray sample bvh origins N w i") (simp_all add: ray_value_def ray_calls_def)

lemma ray_calls_worker:
  assumes "direction w = direction w'" "inv_dir w = inv_dir w'"
  shows "ray_calls sample bvh origins N w i = ray_calls sample bvh origins N w' i"
  by (simp only: ray_calls_value ray_value_worker[OF assms])

lemma trace_ray_dirs:
  "trace_ray sample bvh origins N w i = Inr (r, cs)
   \<Longrightarrow> direction r = direction w \<and> inv_dir r = inv_dir w"
  by (auto simp: trace_ray_def bindE_def prepare_ray_def split: sum.splits dest!: intersect_dirs)

text \<open>One iteration of the driver, when it succeeds.\<close>

lemma cast_step_cases:
  assumes "cast_step sample bvh origins N (img, w, cls) i = Inr (img1, w1, cls1)"
  obtains cs where "trace_ray sample bvh origins N w i = Inr (w1, cs)" "in_range img i"
    "img1 = img[nat i := data_val w1]" "cls1 = cls @ cs"
  using assms
  by (cases "trace_ray sample bvh origins N w i")
     (auto simp: cast_step_def bindE_def split: if_splits)

text \<open>
  The loop of the driver: the image keeps its length, every slot whose index the loop
  visits holds the value of that ray, every other slot is untouched, and the sampler
  invocations are those of the rays in order.
\<close>

lemma cast_loop:
  "foldE (cast_step sample bvh origins N) (img, w, cls) xs = Inr (img', w', cls')
   \<Longrightarrow> direction w = direction w0 \<Longrightarrow> inv_dir w = inv_dir w0
   \<Longrightarrow> length img' = length img
       \<and> cls' = cls @ concat (map (ray_calls sample bvh origins N w0) xs)
       \<and> (\<forall>k \<in> set xs. in_range img k
             \<and> (\<exists>cs. ray_value sample bvh origins N w0 k = Inr (img' ! nat k, cs)))
       \<and> (\<forall>k. 0 \<le> k \<and> k \<notin> set xs \<longrightarrow> img' ! nat k = img ! nat k)"
proof (induction xs arbitrary: img w cls)
  case Nil
  then show ?case by simp
next
  case (Cons x xs)
  from Cons.prems(1) obtain st1
    where s1: "cast_step sample bvh origins N (img, w, cls) x = Inr st1"
      and rest: "foldE (cast_step sample bvh origins N) st1 xs = Inr (img', w', cls')"
    by (cases "cast_step sample bvh origins N (img, w, cls) x") (simp_all add: bindE_def)
  obtain img1 w1 cls1 where st1: "st1 = (img1, w1, cls1)" by (cases st1) auto
  from s1[unfolded st1] obtain cs
    where tr: "trace_ray sample bvh origins N w x = Inr (w1, cs)" and rng: "in_range img x"
      and img1: "img1 = img[nat x := data_val w1]" and cls1: "cls1 = cls @ cs"
    by (rule cast_step_cases)
  from trace_ray_dirs[OF tr] Cons.prems(2,3)
  have d1: "direction w1 = direction w0" "inv_dir w1 = inv_dir w0" by simp_all
  from tr have "ray_value sample bvh origins N w x = Inr (data_val w1, cs)"
    by (simp add: ray_value_def)
  with ray_value_worker[OF Cons.prems(2,3)]
  have vx: "ray_value sample bvh origins N w0 x = Inr (data_val w1, cs)" by simp
  then have cx: "ray_calls sample bvh origins N w0 x = cs" by (simp add: ray_calls_value)
  have len1: "length img1 = length img" by (simp add: img1)
  note ih = Cons.IH[OF rest[unfolded st1] d1]
  from ih len1 have len: "length img' = length img" by simp
  from ih cls1 cx have calls: "cls' = cls @ concat (map (ray_calls sample bvh origins N w0) (x # xs))"
    by simp
  from rng have x0: "0 \<le> x" "nat x < length img" by (auto simp: in_range_def)
  have slots: "in_range img k \<and> (\<exists>cs. ray_value sample bvh origins N w0 k = Inr (img' ! nat k, cs))"
    if "k \<in> set (x # xs)" for k
  proof (cases "k \<in> set xs")
    case True
    with ih len1 show ?thesis by (auto simp: in_range_def)
  next
    case False
    with that have kx: "k = x" by simp
    from ih False x0 kx have "img' ! nat k = img1 ! nat k" by simp
    also have "\<dots> = data_val w1" using x0 kx by (simp add: img1)
    finally show ?thesis using vx rng kx by auto
  qed
  have others: "img' ! nat k = img ! nat k" if "0 \<le> k" "k \<notin> set (x # xs)" for k
  proof -
    from that ih have "img' ! nat k = img1 ! nat k" by simp
    also from that x0 have "nat k \<noteq> nat x" by auto
    then have "img1 ! nat k = img ! nat k" by (simp add: img1)
    finally show ?thesis .
  qed
  from len calls slots others show ?case by blast
qed

text \<open>The loop returns when every ray can be traced and has a slot in the image.\<close>

lemma cast_loop_total:
  "direction w = direction w0 \<Longrightarrow> inv_dir w = inv_dir w0
   \<Longrightarrow> \<forall>k \<in> set xs. in_range img k \<and> (\<exists>v cs. ray_value sample bvh origins N w0 k = Inr (v, cs))
   \<Longrightarrow> \<exists>st. foldE (cast_step sample bvh origins N) (img, w, cls) xs = Inr st"
proof (induction xs arbitrary: img w cls)
  case Nil
  then show ?case by simp
next
  case (Cons x xs)
  from Cons.prems(3) obtain v cs where rng: "in_range img x"
    and v0: "ray_value sample bvh origins N w0 x = Inr (v, cs)" by auto
  from v0 ray_value_worker[OF Cons.prems(1,2)]
  have "ray_value sample bvh origins N w x = Inr (v, cs)" by simp
  then obtain w1 where tr: "trace_ray sample bvh origins N w x = Inr (w1, cs)"
    by (cases "trace_ray sample bvh origins N w x") (auto simp: ray_value_def)
  from trace_ray_dirs[OF tr] Cons.prems(1,2)
  have d1: "direction w1 = direction w0" "inv_dir w1 = inv_dir w0" by simp_all
  from tr rng
  have s1: "cast_step sample bvh origins N (img, w, cls) x
              = Inr (img[nat x := data_val w1], w1, cls @ cs)"
    by (simp add: cast_step_def bindE_def)
  have "\<forall>k \<in> set xs. in_range (img[nat x := data_val w1]) k
          \<and> (\<exists>v cs. ray_value sample bvh origins N w0 k = Inr (v, cs))"
    using Cons.prems(3) by (simp add: in_range_def)
  from Cons.IH[OF d1 this, of "cls @ cs"] s1 show ?case by (simp add: bindE_def)
qed

lemma worker_ray_dirs:
  "direction (worker_ray ray0 d) = d"
  by (simp add: worker_ray_def)

lemma range_list_set: "set (range_list N) = {k. 0 \<le> k \<and> k < N}"
proof -
  have "k \<in> int ` {0..<nat N} \<longleftrightarrow> 0 \<le> k \<and> k < N" for k
  proof
    assume "k \<in> int ` {0..<nat N}"
    then show "0 \<le> k \<and> k < N" by auto
  next
    assume a: "0 \<le> k \<and> k < N"
    then have "nat k \<in> {0..<nat N}" "k = int (nat k)" by auto
    then show "k \<in> int ` {0..<nat N}" by (rule rev_image_eqI)
  qed
  then show ?thesis by (auto simp: range_list_def)
qed

lemma cast_rays_cases:
  assumes "cast_rays sample img origins dir N bvh ray0 = Inr (img', cls)"
  obtains d w' where "read_direction dir = Inr d"
    "foldE (cast_step sample bvh origins N) (img, worker_ray ray0 d, []) (range_list N)
       = Inr (img', w', cls)"
  using assms
  by (auto simp: cast_rays_def bindE_def split: sum.splits)

text \<open>A ray that the traversal leaves without a hit has the value 0 and no invocation.\<close>

lemma trace_ray_miss:
  assumes "get origins (origin_index N 0 i) = Inr o0" "get origins (origin_index N 1 i) = Inr o1"
    "get origins (origin_index N 2 i) = Inr o2"
    "recursive_intersect (triangles bvh) (prepare_ray w (o0, o1, o2)) (root bvh) = Inr ray2"
    "elem_id ray2 < 0"
  shows "trace_ray sample bvh origins N w i = Inr (ray2, []) \<and> data_val ray2 = Fin 0"
proof -
  from recursive_intersect_data_val[OF assms(4)] have "data_val ray2 = Fin 0"
    by (simp add: prepare_ray_def)
  moreover from assms(4,5) have "intersect sample bvh (prepare_ray w (o0, o1, o2)) = Inr (ray2, [])"
    by (simp add: intersect_def)
  ultimately show ?thesis using assms(1-3) by (simp add: trace_ray_def bindE_def)
qed

subsection \<open>Two rays against the sample tetrahedron\<close>

lemma miss_bbox: "\<not> ray_bbox_intersect (upward_ray 5 5) unit_box"
  by (simp add: ray_bbox_intersect_def slab_interval_def slab_step_def upward_ray_def unit_box_def
      INF_f64_def fsub_def fmin_def fmax_def fge_def fle_def Let_def round64_zero round64_dyadic)

lemma hit_bbox: "ray_bbox_intersect (upward_ray (1 / 4) (1 / 4)) unit_box"
  by (simp add: ray_bbox_intersect_def slab_interval_def slab_step_def upward_ray_def unit_box_def
      INF_f64_def fsub_def fmin_def fmax_def fge_def fle_def Let_def round64_zero round64_dyadic)

lemma miss_traversal:
  "recursive_intersect (triangles tetra_bvh) (upward_ray 5 5) (root tetra_bvh) = Inr (upward_ray 5 5)"
  by (simp add: tetra_bvh_def miss_bbox)

lemma hit_scan:
  "leaf_scan tetra_tris (upward_ray (1 / 4) (1 / 4)) 0 4
     = Inr ((upward_ray (1 / 4) (1 / 4))\<lparr>t_far := Fin 1, elem_id := 0\<rparr>)"
  by (simp add: leaf_scan.simps in_range_def tetra_tris_def triangle_of_def
      ray_triangle_intersect_def upward_ray_def fsub_def fgt_def DETERMINANT_EPS_value Let_def
      round64_zero round64_dyadic)

lemma hit_traversal:
  "recursive_intersect (triangles tetra_bvh) (upward_ray (1 / 4) (1 / 4)) (root tetra_bvh)
     = Inr ((upward_ray (1 / 4) (1 / 4))\<lparr>t_far := Fin 1, elem_id := 0\<rparr>)"
  by (simp add: tetra_bvh_def hit_bbox hit_scan LEAF_SIZE_def)

lemma hit_intersect:
  "intersect const_sampler tetra_bvh (upward_ray (1 / 4) (1 / 4))
     = Inr ((upward_ray (1 / 4) (1 / 4))\<lparr>t_far := Fin 1, elem_id := 0, data_val := Fin 42,
                                            near_boundary := - 1\<rparr>,
            [(P1Sampler, vertices tetra_bvh, field_data tetra_bvh,
              (Fin (1 / 4), Fin (1 / 4), Fin 0))])"
  by (simp add: intersect_def hit_traversal)
     (simp add: upward_ray_def tetra_bvh_def const_sampler_def Let_def round64_zero round64_dyadic)

lemma miss_intersect:
  "intersect const_sampler tetra_bvh (upward_ray 5 5) = Inr (upward_ray 5 5, [])"
  by (simp add: intersect_def miss_traversal) (simp add: upward_ray_def)

lemma upward_worker:
  "worker_ray blank_ray (Fin 0, Fin 0, Fin 1)
     = blank_ray\<lparr>direction := (Fin 0, Fin 0, Fin 1), inv_dir := (PInf, PInf, Fin 1)\<rparr>"
  by (simp add: worker_ray_def round64_dyadic)

lemma prepare_upward:
  "prepare_ray (worker_ray blank_ray (Fin 0, Fin 0, Fin 1)) (Fin x, Fin y, Fin (- 1))
     = upward_ray x y"
  unfolding upward_worker
  by (simp add: prepare_ray_def blank_ray_def upward_ray_def INF_f64_def)

lemma two_origins_read:
  "get two_origins (origin_index 2 0 0) = Inr (Fin (1 / 4))"
  "get two_origins (origin_index 2 1 0) = Inr (Fin (1 / 4))"
  "get two_origins (origin_index 2 2 0) = Inr (Fin (- 1))"
  "get two_origins (origin_index 2 0 1) = Inr (Fin 5)"
  "get two_origins (origin_index 2 1 1) = Inr (Fin 5)"
  "get two_origins (origin_index 2 2 1) = Inr (Fin (- 1))"
  by (simp_all add: two_origins_def origin_index_def c_int_def get_simps)

lemma trace_hit:
  "trace_ray const_sampler tetra_bvh two_origins 2 (worker_ray blank_ray (Fin 0, Fin 0, Fin 1)) 0
     = Inr ((upward_ray (1 / 4) (1 / 4))\<lparr>t_far := Fin 1, elem_id := 0, data_val := Fin 42,
                                            near_boundary := - 1\<rparr>,
            [(P1Sampler, vertices tetra_bvh, field_data tetra_bvh,
              (Fin (1 / 4), Fin (1 / 4), Fin 0))])"
  by (simp add: trace_ray_def two_origins_read bindE_def prepare_upward hit_intersect)

lemma trace_miss:
  "trace_ray const_sampler tetra_bvh two_origins 2 (worker_ray blank_ray (Fin 0, Fin 0, Fin 1)) 1
     = Inr (upward_ray 5 5, [])"
  by (simp add: trace_ray_def two_origins_read bindE_def prepare_upward miss_intersect)

lemma read_upward: "read_direction [Fin 0, Fin 0, Fin 1] = Inr (Fin 0, Fin 0, Fin 1)"
  by (simp add: read_direction_def get_simps bindE_def)

lemma cast_two_rays:
  "cast_rays const_sampler [Fin 7, Fin 7] two_origins [Fin 0, Fin 0, Fin 1] 2 tetra_bvh blank_ray
   = Inr ([Fin 42, Fin 0],
          [(P1Sampler, vertices tetra_bvh, field_data tetra_bvh,
            (Fin (1 / 4), Fin (1 / 4), Fin 0))])"
proof -
  let ?w = "worker_ray blank_ray (Fin 0, Fin 0, Fin 1)"
  let ?h = "(upward_ray (1 / 4) (1 / 4))\<lparr>t_far := Fin 1, elem_id := 0,
               data_val := Fin 42, near_boundary := - 1\<rparr>"
  let ?c = "(P1Sampler, vertices tetra_bvh, field_data tetra_bvh, (Fin (1 / 4), Fin (1 / 4), Fin 0))"
  have s0: "cast_step const_sampler tetra_bvh two_origins 2 ([Fin 7, Fin 7], ?w, []) 0
              = Inr ([Fin 42, Fin 7], ?h, [?c])"
    by (simp add: cast_step_def trace_hit bindE_def in_range_def)
  have p2: "prepare_ray ?h (Fin 5, Fin 5, Fin (- 1)) = (upward_ray 5 5)\<lparr>near_boundary := - 1\<rparr>"
    by (simp add: prepare_ray_def upward_ray_def INF_f64_def)
  have m2: "intersect const_sampler tetra_bvh ((upward_ray 5 5)\<lparr>near_boundary := - 1\<rparr>)
              = Inr ((upward_ray 5 5)\<lparr>near_boundary := - 1\<rparr>, [])"
    by (simp add: intersect_near_boundary miss_intersect) (simp add: upward_ray_def)
  have t1: "trace_ray const_sampler tetra_bvh two_origins 2 ?h 1
              = Inr ((upward_ray 5 5)\<lparr>near_boundary := - 1\<rparr>, [])"
    by (simp add: trace_ray_def two_origins_read bindE_def p2 m2)
  have s1: "cast_step const_sampler tetra_bvh two_origins 2 ([Fin 42, Fin 7], ?h, [?c]) 1
              = Inr ([Fin 42, Fin 0], (upward_ray 5 5)\<lparr>near_boundary := - 1\<rparr>, [?c])"
    by (simp add: cast_step_def t1 bindE_def in_range_def) (simp add: upward_ray_def)
  show ?thesis
    by (simp add: cast_rays_def read_upward bindE_def range_list_simps s0 s1)
qed

text \<open>The index into \<open>origins\<close> wraps for a ray count beyond a third of the range of \<^verbatim>\<open>int\<close>.\<close>

lemma origin_index_wraps: "origin_index 1073741824 2 0 = - 2147483648"
  by (simp add: origin_index_def c_int_def)

text \<open>
  C9. When the walk of the tree leaves the ray's \<open>elem_id\<close> negative (the sentinel
  \<open>-1\<close> the driver set), \<^verbatim>\<open>BVH.intersect\<close> returns that ray without an invocation of the
  sampler, and with the \<open>data_val\<close> it received; the sampler is invoked only when the walk
  recorded a hit. When \<^verbatim>\<open>cast_rays\<close> returns, the image has kept its length, slot \<open>i\<close>
  holds the value of ray \<open>i\<close> for every \<open>i\<close> below \<open>N\<close>, the slots from \<open>N\<close> on are
  untouched, and the sampler invocations are those of the rays, in order. The value of a
  ray whose walk records no hit is \<open>0\<close>, with no invocation: the driver writes \<open>0\<close> to
  that ray's slot. The driver returns whenever the direction has three components and
  every ray below \<open>N\<close> has a slot in the image and is traced without a fault.
\<close>

theorem cast_rays_no_hit_no_sample:
  "(recursive_intersect (triangles bvh) ray (root bvh) = Inr ray1 \<and> elem_id ray1 < 0
      \<longrightarrow> intersect sample bvh ray = Inr (ray1, []) \<and> data_val ray1 = data_val ray)
   \<and> (intersect sample bvh rayh = Inr (ray3, cs) \<and> cs \<noteq> []
      \<longrightarrow> (\<exists>r. recursive_intersect (triangles bvh) rayh (root bvh) = Inr r \<and> 0 \<le> elem_id r))
   \<and> (cast_rays sample img origins dir N bvh ray0 = Inr (img', cls)
      \<longrightarrow> (\<exists>d. read_direction dir = Inr d
             \<and> length img' = length img
             \<and> cls = concat (map (ray_calls sample bvh origins N (worker_ray ray0 d)) (range_list N))
             \<and> (\<forall>k. 0 \<le> k \<and> k < N
                    \<longrightarrow> in_range img k
                        \<and> (\<exists>ks. ray_value sample bvh origins N (worker_ray ray0 d) k
                                   = Inr (img' ! nat k, ks)))
             \<and> (\<forall>k. 0 \<le> k \<and> N \<le> k \<longrightarrow> img' ! nat k = img ! nat k)))
   \<and> (get origins (origin_index N 0 i) = Inr o0 \<and> get origins (origin_index N 1 i) = Inr o1
       \<and> get origins (origin_index N 2 i) = Inr o2
       \<and> recursive_intersect (triangles bvh) (prepare_ray w (o0, o1, o2)) (root bvh) = Inr ray2
       \<and> elem_id ray2 < 0
      \<longrightarrow> ray_value sample bvh origins N w i = Inr (Fin 0, [])
          \<and> ray_calls sample bvh origins N w i = [])
   \<and> (cast_rays sample img origins dir N bvh ray0 = Inr (img', cls)
       \<and> read_direction dir = Inr dv \<and> 0 \<le> i \<and> i < N
       \<and> get origins (origin_index N 0 i) = Inr o0 \<and> get origins (origin_index N 1 i) = Inr o1
       \<and> get origins (origin_index N 2 i) = Inr o2
       \<and> recursive_intersect (triangles bvh) (prepare_ray (worker_ray ray0 dv) (o0, o1, o2))
            (root bvh) = Inr ray4
       \<and> elem_id ray4 < 0
      \<longrightarrow> img' ! nat i = Fin 0)
   \<and> (read_direction dir = Inr dv
       \<and> (\<forall>k. 0 \<le> k \<and> k < N
              \<longrightarrow> in_range img k
                  \<and> (\<exists>v ks. ray_value sample bvh origins N (worker_ray ray0 dv) k = Inr (v, ks)))
      \<longrightarrow> (\<exists>im cl. cast_rays sample img origins dir N bvh ray0 = Inr (im, cl)))"
proof -
  have 1: "recursive_intersect (triangles bvh) ray (root bvh) = Inr ray1 \<and> elem_id ray1 < 0
      \<longrightarrow> intersect sample bvh ray = Inr (ray1, []) \<and> data_val ray1 = data_val ray"
    by (auto simp: intersect_def dest: recursive_intersect_data_val)
  have 2: "intersect sample bvh rayh = Inr (ray3, cs) \<and> cs \<noteq> []
      \<longrightarrow> (\<exists>r. recursive_intersect (triangles bvh) rayh (root bvh) = Inr r \<and> 0 \<le> elem_id r)"
    by (auto simp: intersect_def Let_def split: sum.splits if_splits option.splits)
  have loop: "\<exists>d. read_direction dir = Inr d
             \<and> length img' = length img
             \<and> cls = concat (map (ray_calls sample bvh origins N (worker_ray ray0 d)) (range_list N))
             \<and> (\<forall>k. 0 \<le> k \<and> k < N
                    \<longrightarrow> in_range img k
                        \<and> (\<exists>ks. ray_value sample bvh origins N (worker_ray ray0 d) k
                                   = Inr (img' ! nat k, ks)))
             \<and> (\<forall>k. 0 \<le> k \<and> N \<le> k \<longrightarrow> img' ! nat k = img ! nat k)"
    if c: "cast_rays sample img origins dir N bvh ray0 = Inr (img', cls)"
  proof -
    from c obtain d w' where d: "read_direction dir = Inr d"
      and f: "foldE (cast_step sample bvh origins N) (img, worker_ray ray0 d, []) (range_list N)
                = Inr (img', w', cls)"
      by (rule cast_rays_cases)
    from cast_loop[OF f refl refl]
    have "length img' = length img
       \<and> cls = concat (map (ray_calls sample bvh origins N (worker_ray ray0 d)) (range_list N))
       \<and> (\<forall>k \<in> set (range_list N). in_range img k
             \<and> (\<exists>ks. ray_value sample bvh origins N (worker_ray ray0 d) k = Inr (img' ! nat k, ks)))
       \<and> (\<forall>k. 0 \<le> k \<and> k \<notin> set (range_list N) \<longrightarrow> img' ! nat k = img ! nat k)"
      by simp
    with d show ?thesis by (auto simp: range_list_set)
  qed
  then have 3: "cast_rays sample img origins dir N bvh ray0 = Inr (img', cls)
      \<longrightarrow> (\<exists>d. read_direction dir = Inr d
             \<and> length img' = length img
             \<and> cls = concat (map (ray_calls sample bvh origins N (worker_ray ray0 d)) (range_list N))
             \<and> (\<forall>k. 0 \<le> k \<and> k < N
                    \<longrightarrow> in_range img k
                        \<and> (\<exists>ks. ray_value sample bvh origins N (worker_ray ray0 d) k
                                   = Inr (img' ! nat k, ks)))
             \<and> (\<forall>k. 0 \<le> k \<and> N \<le> k \<longrightarrow> img' ! nat k = img ! nat k))"
    by blast
  have miss: "ray_value sample bvh origins N w' i = Inr (Fin 0, [])
          \<and> ray_calls sample bvh origins N w' i = []"
    if "get origins (origin_index N 0 i) = Inr o0" "get origins (origin_index N 1 i) = Inr o1"
      "get origins (origin_index N 2 i) = Inr o2"
      "recursive_intersect (triangles bvh) (prepare_ray w' (o0, o1, o2)) (root bvh) = Inr r"
      "elem_id r < 0" for w' r
    using trace_ray_miss[OF that, where sample = sample] by (simp add: ray_value_def ray_calls_def)
  then have 4: "get origins (origin_index N 0 i) = Inr o0 \<and> get origins (origin_index N 1 i) = Inr o1
       \<and> get origins (origin_index N 2 i) = Inr o2
       \<and> recursive_intersect (triangles bvh) (prepare_ray w (o0, o1, o2)) (root bvh) = Inr ray2
       \<and> elem_id ray2 < 0
      \<longrightarrow> ray_value sample bvh origins N w i = Inr (Fin 0, [])
          \<and> ray_calls sample bvh origins N w i = []"
    by blast
  have 5: "cast_rays sample img origins dir N bvh ray0 = Inr (img', cls)
       \<and> read_direction dir = Inr dv \<and> 0 \<le> i \<and> i < N
       \<and> get origins (origin_index N 0 i) = Inr o0 \<and> get origins (origin_index N 1 i) = Inr o1
       \<and> get origins (origin_index N 2 i) = Inr o2
       \<and> recursive_intersect (triangles bvh) (prepare_ray (worker_ray ray0 dv) (o0, o1, o2))
            (root bvh) = Inr ray4
       \<and> elem_id ray4 < 0
      \<longrightarrow> img' ! nat i = Fin 0"
  proof
    assume a: "cast_rays sample img origins dir N bvh ray0 = Inr (img', cls)
       \<and> read_direction dir = Inr dv \<and> 0 \<le> i \<and> i < N
       \<and> get origins (origin_index N 0 i) = Inr o0 \<and> get origins (origin_index N 1 i) = Inr o1
       \<and> get origins (origin_index N 2 i) = Inr o2
       \<and> recursive_intersect (triangles bvh) (prepare_ray (worker_ray ray0 dv) (o0, o1, o2))
            (root bvh) = Inr ray4
       \<and> elem_id ray4 < 0"
    then have c: "cast_rays sample img origins dir N bvh ray0 = Inr (img', cls)" by simp
    from loop[OF c] a obtain ks
      where "ray_value sample bvh origins N (worker_ray ray0 dv) i = Inr (img' ! nat i, ks)"
      by auto
    moreover from a miss[of "worker_ray ray0 dv" ray4]
    have "ray_value sample bvh origins N (worker_ray ray0 dv) i = Inr (Fin 0, [])" by simp
    ultimately show "img' ! nat i = Fin 0" by simp
  qed
  have 6: "read_direction dir = Inr dv
       \<and> (\<forall>k. 0 \<le> k \<and> k < N
              \<longrightarrow> in_range img k
                  \<and> (\<exists>v ks. ray_value sample bvh origins N (worker_ray ray0 dv) k = Inr (v, ks)))
      \<longrightarrow> (\<exists>im cl. cast_rays sample img origins dir N bvh ray0 = Inr (im, cl))"
  proof
    assume a: "read_direction dir = Inr dv
       \<and> (\<forall>k. 0 \<le> k \<and> k < N
              \<longrightarrow> in_range img k
                  \<and> (\<exists>v ks. ray_value sample bvh origins N (worker_ray ray0 dv) k = Inr (v, ks)))"
    then have "\<forall>k \<in> set (range_list N). in_range img k
        \<and> (\<exists>v ks. ray_value sample bvh origins N (worker_ray ray0 dv) k = Inr (v, ks))"
      by (simp add: range_list_set)
    from cast_loop_total[where cls = "[]", OF refl refl this] obtain st
      where "foldE (cast_step sample bvh origins N) (img, worker_ray ray0 dv, []) (range_list N)
               = Inr st" by blast
    with a show "\<exists>im cl. cast_rays sample img origins dir N bvh ray0 = Inr (im, cl)"
      by (simp add: cast_rays_def bindE_def)
  qed
  from 1 2 3 4 5 6 show ?thesis by (intro conjI)
qed

theorem cast_rays_no_hit_no_sample_witness:
  "recursive_intersect (triangles tetra_bvh) (upward_ray 5 5) (root tetra_bvh)
     = Inr (upward_ray 5 5)
   \<and> elem_id (upward_ray 5 5) < 0
   \<and> intersect const_sampler tetra_bvh (upward_ray 5 5) = Inr (upward_ray 5 5, [])
   \<and> intersect const_sampler tetra_bvh (upward_ray (1 / 4) (1 / 4))
       = Inr ((upward_ray (1 / 4) (1 / 4))\<lparr>t_far := Fin 1, elem_id := 0, data_val := Fin 42,
                                              near_boundary := - 1\<rparr>,
              [(P1Sampler, vertices tetra_bvh, field_data tetra_bvh,
                (Fin (1 / 4), Fin (1 / 4), Fin 0))])
   \<and> (\<exists>r. recursive_intersect (triangles tetra_bvh) (upward_ray (1 / 4) (1 / 4)) (root tetra_bvh)
             = Inr r \<and> 0 \<le> elem_id r)
   \<and> cast_rays const_sampler [Fin 7, Fin 7] two_origins [Fin 0, Fin 0, Fin 1] 2 tetra_bvh blank_ray
       = Inr ([Fin 42, Fin 0],
              [(P1Sampler, vertices tetra_bvh, field_data tetra_bvh,
                (Fin (1 / 4), Fin (1 / 4), Fin 0))])
   \<and> ray_value const_sampler tetra_bvh two_origins 2
        (worker_ray blank_ray (Fin 0, Fin 0, Fin 1)) 1 = Inr (Fin 0, [])
   \<and> ray_calls const_sampler tetra_bvh two_origins 2
        (worker_ray blank_ray (Fin 0, Fin 0, Fin 1)) 1 = []
   \<and> [Fin 42, Fin 0 :: f64] ! nat 1 = Fin 0
   \<and> (\<exists>im cl. cast_rays const_sampler [Fin 7, Fin 7] two_origins [Fin 0, Fin 0, Fin 1] 2
                 tetra_bvh blank_ray = Inr (im, cl))"
proof -
  let ?w = "worker_ray blank_ray (Fin 0, Fin 0, Fin 1)"
  let ?c = "(P1Sampler, vertices tetra_bvh, field_data tetra_bvh, (Fin (1 / 4), Fin (1 / 4), Fin 0))"
  have neg: "elem_id (upward_ray 5 5) < 0" by (simp add: upward_ray_def)
  have p: "prepare_ray ?w (Fin 5, Fin 5, Fin (- 1)) = upward_ray 5 5"
    by (rule prepare_upward)
  have ne: "[?c] \<noteq> []" by simp
  have v0: "ray_value const_sampler tetra_bvh two_origins 2 ?w 0 = Inr (Fin 42, [?c])"
    by (simp add: ray_value_def trace_hit)
  have v1: "ray_value const_sampler tetra_bvh two_origins 2 ?w 1 = Inr (Fin 0, [])"
    by (simp add: ray_value_def trace_miss) (simp add: upward_ray_def)
  have "in_range [Fin 7, Fin 7 :: f64] k
          \<and> (\<exists>v ks. ray_value const_sampler tetra_bvh two_origins 2 ?w k = Inr (v, ks))"
    if "0 \<le> k \<and> k < 2" for k
  proof -
    from that have "k = 0 \<or> k = 1" by auto
    with v0 v1 show ?thesis by (auto simp: in_range_def)
  qed
  then have all: "\<forall>k. 0 \<le> k \<and> k < 2
      \<longrightarrow> in_range [Fin 7, Fin 7 :: f64] k
          \<and> (\<exists>v ks. ray_value const_sampler tetra_bvh two_origins 2 ?w k = Inr (v, ks))"
    by blast
  from cast_rays_no_hit_no_sample[where bvh = tetra_bvh and ray = "upward_ray 5 5"
      and ?ray1.0 = "upward_ray 5 5" and sample = const_sampler and origins = two_origins
      and N = 2 and i = 1 and ?o0.0 = "Fin 5" and ?o1.0 = "Fin 5" and ?o2.0 = "Fin (- 1)"
      and w = ?w and ?ray2.0 = "upward_ray 5 5" and ?ray4.0 = "upward_ray 5 5"
      and img = "[Fin 7, Fin 7]" and img' = "[Fin 42, Fin 0]" and cls = "[?c]"
      and dir = "[Fin 0, Fin 0, Fin 1]" and dv = "(Fin 0, Fin 0, Fin 1)" and ray0 = blank_ray
      and rayh = "upward_ray (1 / 4) (1 / 4)"
      and ?ray3.0 = "(upward_ray (1 / 4) (1 / 4))\<lparr>t_far := Fin 1, elem_id := 0,
                     data_val := Fin 42, near_boundary := - 1\<rparr>"
      and cs = "[?c]"]
    miss_traversal neg two_origins_read p hit_intersect ne cast_two_rays read_upward all
  show ?thesis by simp
qed

section \<open>The kernels on the sample rays\<close>

theorem ray_bbox_intersect_hit_iff_witness:
  "slab_interval (upward_ray (1 / 4) (1 / 4)) unit_box = (Fin 1, Fin 2)
   \<and> ray_bbox_intersect (upward_ray (1 / 4) (1 / 4)) unit_box
   \<and> in_axis_interval (upward_ray (1 / 4) (1 / 4)) unit_box 2 (3 / 2)
   \<and> slab_interval (upward_ray 5 5) unit_box = (Fin 1, NInf)
   \<and> \<not> ray_bbox_intersect (upward_ray 5 5) unit_box"
proof -
  have a: "slab_interval (upward_ray (1 / 4) (1 / 4)) unit_box = (Fin 1, Fin 2)"
    by (simp add: slab_interval_def slab_step_def upward_ray_def unit_box_def
        INF_f64_def fsub_def fmin_def fmax_def Let_def round64_zero round64_dyadic)
  have b: "slab_interval (upward_ray 5 5) unit_box = (Fin 1, NInf)"
    by (simp add: slab_interval_def slab_step_def upward_ray_def unit_box_def
        INF_f64_def fsub_def fmin_def fmax_def Let_def round64_zero round64_dyadic)
  note h = ray_bbox_intersect_hit_iff[of "upward_ray (1 / 4) (1 / 4)" unit_box "3 / 2"]
  note m = ray_bbox_intersect_hit_iff[of "upward_ray 5 5" unit_box 0]
  from h a have c1: "ray_bbox_intersect (upward_ray (1 / 4) (1 / 4)) unit_box"
    by (simp add: fle_def)
  from h a have c2: "in_axis_interval (upward_ray (1 / 4) (1 / 4)) unit_box 2 (3 / 2)"
    by (simp add: fle_def)
  from m b have c3: "\<not> ray_bbox_intersect (upward_ray 5 5) unit_box"
    by (simp add: fle_def)
  from a b c1 c2 c3 show ?thesis by simp
qed

section \<open>The partition, the axis choice and the topology selection on sample inputs\<close>

lemma split_axis_eq:
  "split_axis box =
     (if fgt (extent box 2) (extent box 0) then 2
      else if fgt (extent box 1) (extent box 0) then 1 else 0)"
  by (simp add: split_axis_def extent_def Let_def)

text \<open>
  What the partition does on every range inside the array: it permutes the array, leaves
  the triangles outside the range in place, and gathers the triangles whose centroid
  exceeds the split value in \<open>[begin, mid)\<close>, the others in \<open>[mid, end)\<close>.
\<close>

lemma swap_nth:
  assumes "0 \<le> mid" "mid < beg" "beg < int (length tris)" "0 \<le> k"
  shows "(tris[nat mid := tris ! nat beg, nat beg := tris ! nat mid]) ! nat k
           = (if k = mid then tris ! nat beg else if k = beg then tris ! nat mid else tris ! nat k)"
proof -
  from assms have "nat mid < length tris" "nat beg < length tris" "nat mid \<noteq> nat beg"
    "(nat k = nat mid) = (k = mid)" "(nat k = nat beg) = (k = beg)"
    by auto
  then show ?thesis by (auto simp: nth_list_update)
qed

lemma partition_loop_sides:
  "partition_loop tris mid beg en ax split = Inr (m, tris') \<Longrightarrow>
   0 \<le> mid \<Longrightarrow> mid \<le> beg \<Longrightarrow> beg \<le> en \<Longrightarrow> en \<le> int (length tris) \<Longrightarrow>
   (\<forall>k. mid \<le> k \<and> k < beg \<longrightarrow> \<not> gt_split tris ax split k) \<Longrightarrow>
   mset tris' = mset tris
   \<and> (\<forall>k. 0 \<le> k \<and> (k < mid \<or> en \<le> k) \<longrightarrow> tris' ! nat k = tris ! nat k)
   \<and> (\<forall>k. mid \<le> k \<and> k < m \<longrightarrow> gt_split tris' ax split k)
   \<and> (\<forall>k. m \<le> k \<and> k < en \<longrightarrow> \<not> gt_split tris' ax split k)"
proof (induction tris mid beg en ax split arbitrary: m tris' rule: partition_loop.induct)
  case (1 tris mid beg en ax split)
  note pre = "1.prems"(2-6)
  from "1.prems"(1) show ?case
  proof (cases rule: partition_loop_result_cases)
    case finished
    with pre show ?thesis by simp
  next
    case advance
    from advance(3) have g: "gt_split tris ax split mid" by (simp add: gt_split_def)
    with pre have eq: "mid = beg" by (metis order_le_less order_refl)
    have ih: "mset tris' = mset tris
      \<and> (\<forall>k. 0 \<le> k \<and> (k < mid + 1 \<or> en \<le> k) \<longrightarrow> tris' ! nat k = tris ! nat k)
      \<and> (\<forall>k. mid + 1 \<le> k \<and> k < m \<longrightarrow> gt_split tris' ax split k)
      \<and> (\<forall>k. m \<le> k \<and> k < en \<longrightarrow> \<not> gt_split tris' ax split k)"
      using "1.IH"(1)[OF advance(1) _ advance(3) advance(4)] advance(1,2) pre eq by auto
    then have same: "tris' ! nat mid = tris ! nat mid" using pre by auto
    have "gt_split tris' ax split k" if "mid \<le> k" "k < m" for k
    proof (cases "k = mid")
      case True
      with g same show ?thesis by (simp add: gt_split_def)
    next
      case False
      with that ih show ?thesis by auto
    qed
    with ih show ?thesis by auto
  next
    case swap
    let ?t2 = "tris[nat mid := tris ! nat beg, nat beg := tris ! nat mid]"
    from swap(3,5) have ne: "mid \<noteq> beg" by auto
    with pre have lt: "mid < beg" by simp
    from swap(4) have bl: "beg < int (length tris)" by (simp add: in_range_def)
    note nth = swap_nth[OF pre(1) lt bl]
    have pre2: "\<forall>k. mid + 1 \<le> k \<and> k < beg + 1 \<longrightarrow> \<not> gt_split ?t2 ax split k"
    proof (intro allI impI)
      fix k assume k: "mid + 1 \<le> k \<and> k < beg + 1"
      with pre(1) have k0: "0 \<le> k" by simp
      show "\<not> gt_split ?t2 ax split k"
      proof (cases "k = beg")
        case True
        with nth[OF k0] ne swap(3) show ?thesis by (simp add: gt_split_def)
      next
        case False
        with k nth[OF k0] pre(5) show ?thesis by (simp add: gt_split_def)
      qed
    qed
    have ih: "mset tris' = mset ?t2
      \<and> (\<forall>k. 0 \<le> k \<and> (k < mid + 1 \<or> en \<le> k) \<longrightarrow> tris' ! nat k = ?t2 ! nat k)
      \<and> (\<forall>k. mid + 1 \<le> k \<and> k < m \<longrightarrow> gt_split tris' ax split k)
      \<and> (\<forall>k. m \<le> k \<and> k < en \<longrightarrow> \<not> gt_split tris' ax split k)"
      using "1.IH"(2)[OF swap(1) _ swap(3) _ swap(5) swap(6) _ _ _ _ pre2] swap(1,2,4) pre lt
      by auto
    have ms: "mset ?t2 = mset tris"
      using pre(1) lt bl by (simp add: mset_swap)
    have same: "tris' ! nat k = tris ! nat k" if "0 \<le> k" "k < mid \<or> en \<le> k" for k
    proof -
      from that ih have "tris' ! nat k = ?t2 ! nat k" by auto
      also from that lt pre(3) swap(1) have "?t2 ! nat k = tris ! nat k"
        using nth[OF that(1)] by auto
      finally show ?thesis .
    qed
    have atmid: "gt_split tris' ax split mid"
    proof -
      from ih pre(1) have "tris' ! nat mid = ?t2 ! nat mid" by auto
      with nth[OF pre(1)] swap(5) show ?thesis by (simp add: gt_split_def)
    qed
    have "gt_split tris' ax split k" if "mid \<le> k" "k < m" for k
      using that atmid ih by (cases "k = mid") auto
    with ih ms same show ?thesis by auto
  next
    case skip
    have pre2: "\<forall>k. mid \<le> k \<and> k < beg + 1 \<longrightarrow> \<not> gt_split tris ax split k"
    proof (intro allI impI)
      fix k assume k: "mid \<le> k \<and> k < beg + 1"
      show "\<not> gt_split tris ax split k"
      proof (cases "k = beg")
        case True
        with skip(5) show ?thesis by (simp add: gt_split_def)
      next
        case False
        with k pre(5) show ?thesis by simp
      qed
    qed
    from "1.IH"(3)[OF skip(1) _ skip(3) _ skip(5) skip(6) pre(1) _ _ pre(4) pre2] skip(1,2,4) pre
    show ?thesis by auto
  qed
qed

lemma partition_bvh_sides:
  assumes "partition_bvh tris beg en ax split = Inr (m, tris')"
    and "0 \<le> beg" "beg \<le> en" "en \<le> int (length tris)"
  shows "mset tris' = mset tris
   \<and> (\<forall>k. 0 \<le> k \<and> (k < beg \<or> en \<le> k) \<longrightarrow> tris' ! nat k = tris ! nat k)
   \<and> (\<forall>k. beg \<le> k \<and> k < m \<longrightarrow> gt_split tris' ax split k)
   \<and> (\<forall>k. m \<le> k \<and> k < en \<longrightarrow> \<not> gt_split tris' ax split k)"
proof -
  from assms(1) have p: "partition_loop tris beg beg en ax split = Inr (m, tris')"
    by (simp add: partition_bvh_def)
  have v: "\<forall>k. beg \<le> k \<and> k < beg \<longrightarrow> \<not> gt_split tris ax split k" by auto
  from partition_loop_sides[OF p assms(2) order_refl assms(3) assms(4) v] show ?thesis .
qed

text \<open>
  C2. The claim places the triangles with \<open>centroid \<le> split\<close> in \<open>[begin, mid)\<close> and those
  with \<open>centroid > split\<close> in \<open>[mid, end)\<close>. The loop advances \<open>mid\<close> over the triangles
  whose centroid exceeds the split value, so the sides are the other way round: on the
  sample strip, split at \<open>17 / 2\<close>, the eight triangles of \<open>[0, 8)\<close> all have a centroid
  above the split value and the nine of \<open>[8, 17)\<close> have one at most the split value.
\<close>

theorem partition_bvh_sides_swapped:
  "partition_bvh strip17 0 17 0 (Fin (17 / 2)) = Inr (8, strip17_sorted)
   \<and> list_all (\<lambda>t. fgt (idx (centroid t) 0) (Fin (17 / 2))) (take 8 strip17_sorted)
   \<and> list_all (\<lambda>t. fle (idx (centroid t) 0) (Fin (17 / 2))) (drop 8 strip17_sorted)
   \<and> mset strip17_sorted = mset strip17"
  by (simp add: strip17_partition)
     (simp add: strip17_sorted_def strip17_def strip_tri_centroid fgt_def fle_def)

text \<open>
  C3. The claim makes the split axis the axis of greatest extent. The code compares the
  y and the z extent with the x extent only: on a box of extents 1, 3 and 2 it chooses
  axis 2, although axis 1 is strictly the longest.
\<close>

theorem split_axis_not_longest:
  "extent box132 0 = Fin 1 \<and> extent box132 1 = Fin 3 \<and> extent box132 2 = Fin 2
   \<and> split_axis box132 = 2"
  by (simp add: split_axis_def extent_def box132_def fsub_def fgt_def Let_def
      round64_zero round64_dyadic)

text \<open>
  For every vertex count other than 4, 6 and 8, and whatever the mesh, construction ends
  in an out-of-bounds read: never in \<open>UnsupportedTopology\<close>, and never with a BVH.
\<close>

lemma bindE_oob:
  "m = Inl OutOfBounds \<or> (\<exists>x. m = Inr x) \<Longrightarrow> (\<And>x. f x = Inl OutOfBounds \<or> (\<exists>y. f x = Inr y))
   \<Longrightarrow> bindE m f = Inl OutOfBounds \<or> (\<exists>y. bindE m f = Inr y)"
  by (cases m) (auto simp: bindE_def)

lemma get_oob: "get xs i = Inl OutOfBounds \<or> (\<exists>x. get xs i = Inr x)"
  by (simp add: get_def)

lemma mapE_oob:
  "(\<And>x. f x = Inl OutOfBounds \<or> (\<exists>y. f x = Inr y))
   \<Longrightarrow> mapE f xs = Inl OutOfBounds \<or> (\<exists>ys. mapE f xs = Inr ys)"
proof (induction xs)
  case Nil
  then show ?case by simp
next
  case (Cons x xs)
  from Cons.prems[of x] show ?case
  proof
    assume "f x = Inl OutOfBounds"
    then show ?thesis by (simp add: bindE_def)
  next
    assume "\<exists>y. f x = Inr y"
    then obtain y where y: "f x = Inr y" by blast
    from Cons.IH[OF Cons.prems] show ?thesis
    proof
      assume "mapE f xs = Inl OutOfBounds"
      with y show ?thesis by (simp add: bindE_def)
    next
      assume "\<exists>ys. mapE f xs = Inr ys"
      with y show ?thesis by (auto simp: bindE_def)
    qed
  qed
qed

lemma mapE_no_triangles: "mapE (\<lambda>i. Inr []) xs = Inr (map (\<lambda>i. []) xs)"
  by (induction xs) (simp_all add: bindE_def)

lemma select_topology_other:
  "nv \<noteq> 8 \<Longrightarrow> nv \<noteq> 6 \<Longrightarrow> nv \<noteq> 4 \<Longrightarrow> select_topology tb nv = (0, [], None)"
  by (simp add: select_topology_def)

lemma bvh_cinit_other_count:
  assumes "nv \<noteq> 8" "nv \<noteq> 6" "nv \<noteq> 4"
  shows "bvh_cinit tb verts inds nv fdata = Inl OutOfBounds"
proof -
  let ?ne = "int (length inds)"
  let ?A = "mapE (\<lambda>i. mapE (\<lambda>j. bindE (get fdata i) (\<lambda>row. get row j)) (range_list nv))
              (range_list ?ne)"
  let ?B = "mapE (\<lambda>i. mapE (\<lambda>j. bindE (get inds i) (\<lambda>row. bindE (get row j) (get verts)))
                         (range_list nv))
              (range_list ?ne)"
  have A: "?A = Inl OutOfBounds \<or> (\<exists>fd. ?A = Inr fd)"
    by (intro mapE_oob bindE_oob get_oob)
  have B: "?B = Inl OutOfBounds \<or> (\<exists>vs. ?B = Inr vs)"
    by (intro mapE_oob bindE_oob get_oob)
  have C: "concat (map (\<lambda>i. []) (range_list ?ne)) = ([] :: Triangle list)" by simp
  have r0: "range_list 0 = []" by (simp add: range_list_def)
  from A B show ?thesis
    by (auto simp: bvh_cinit_def select_topology_other[OF assms] r0 mapE_no_triangles C
        recursive_build_empty Let_def bindE_def)
qed

text \<open>
  C4. The claim has construction fail with \<open>UnsupportedTopology\<close> for a vertex count
  other than 4, 6 or 8. The selection has no branch for such a count: for one element
  of five vertices no triangle is made, and the builder is entered on an empty array,
  where it reads out of bounds. For four vertices the tetrahedron's configuration is
  selected and construction succeeds.
\<close>

theorem bvh_cinit_five_vertices:
  "select_topology sample_tables 5 = (0, [], None)
   \<and> bvh_cinit sample_tables pyramid_verts [[0, 1, 2, 3, 4]] 5
       [[Fin 10, Fin 20, Fin 30, Fin 40, Fin 50]] = Inl OutOfBounds
   \<and> bvh_cinit sample_tables tetra_verts [[0, 1, 2, 3]] 4 [[Fin 10, Fin 20, Fin 30, Fin 40]]
       = Inr tetra_bvh"
  by (simp add: tetra_cinit)
     (simp add: bvh_cinit_def select_topology_def range_list_simps bindE_def get_simps
        pyramid_verts_def tetra_verts_def recursive_build_empty)

end
